theory Spec2Isabelle
  imports Main "HOL-Library.Sublist"
begin

section \<open>The Hayabusa JSON-timeline task: a model of \<open>src/json_timeline.py\<close>\<close>

text \<open>
  The task \<open>json_timeline\<close> stages its input files as hard links in a fresh directory,
  launches the Hayabusa binary over that directory, polls the process while emitting
  progress events, removes the directory and returns a task result.

  Everything the function does to the outside is made explicit: the filesystem is a table
  of nodes, every call that leaves the function (\<open>os.mkdir\<close>, \<open>os.link\<close>,
  \<open>subprocess.Popen\<close>, \<open>process.poll\<close>, \<open>self.send_event\<close>, \<open>time.sleep\<close>,
  \<open>os.path.exists\<close>, \<open>shutil.rmtree\<close>) is logged in a trace, exceptions are values of a
  sum type, and a polling loop that never ends is the value \<open>None\<close>.
\<close>

subsection \<open>Python values\<close>

text \<open>A \<open>dict\<close> with string keys and string values, as an association list.\<close>

type_synonym py_dict = "(string \<times> string) list"

text \<open>\<open>d.get(k)\<close>: the value, or \<open>None\<close> when the key is missing.\<close>

definition dict_get :: "py_dict \<Rightarrow> string \<Rightarrow> string option" where
  "dict_get d k = map_of d k"

text \<open>\<open>sep.join(xs)\<close>.\<close>

fun str_join :: "string \<Rightarrow> string list \<Rightarrow> string" where
  "str_join sep [] = []"
| "str_join sep [x] = x"
| "str_join sep (x # y # ys) = x @ sep @ str_join sep (y # ys)"

text \<open>\<open>xs or []\<close> for an argument that is a list or \<open>None\<close>.\<close>

definition or_empty :: "'a list option \<Rightarrow> 'a list" where
  "or_empty xs = (case xs of None \<Rightarrow> [] | Some ys \<Rightarrow> ys)"

subsection \<open>Errors\<close>

datatype errno = EEXIST | ENOENT | ENOTDIR | EPERM | EACCES | EXDEV | ENOSPC | EMLINK | EIO

text \<open>
  The exceptions that can leave \<open>json_timeline\<close>: an \<open>OSError\<close> with the call that raised
  it, a \<open>TypeError\<close> (a \<open>None\<close> where a path is expected), the \<open>RuntimeError\<close> of line 100
  with its message, and an exception raised inside one of the imported helpers
  of \<open>openrelik_worker_common\<close>.
\<close>

datatype error =
    OSError string errno
  | TypeError
  | RuntimeError string
  | HelperError string

subsection \<open>Paths\<close>

text \<open>
  \<open>os.path.basename(p)\<close> is \<open>p[p.rfind('/') + 1:]\<close>: what follows the last slash.
\<close>

definition basename :: "string \<Rightarrow> string" where
  "basename p = rev (takeWhile (\<lambda>c. c \<noteq> CHR ''/'') (rev p))"

text \<open>
  \<open>os.path.join(a, b)\<close> for two arguments (posixpath): an absolute \<open>b\<close> replaces \<open>a\<close>,
  otherwise the two are joined with exactly one slash added unless \<open>a\<close> is empty or ends
  with one. A \<open>None\<close> first argument raises \<open>TypeError\<close>.
\<close>

definition os_path_join :: "string option \<Rightarrow> string \<Rightarrow> error + string" where
  "os_path_join a b =
     (case a of
        None \<Rightarrow> Inl TypeError
      | Some a' \<Rightarrow>
          if b \<noteq> [] \<and> hd b = CHR ''/'' then Inr b
          else if a' = [] \<or> last a' = CHR ''/'' then Inr (a' @ b)
          else Inr (a' @ ''/'' @ b))"

text \<open>
  The operating system resolves a path string to its list of components: slashes
  separate, empty components (a doubled or trailing slash) vanish. The components
  \<open>.\<close> and \<open>..\<close>, symbolic links and a working directory are not modelled: every path is
  read from the root.
\<close>

fun components :: "string \<Rightarrow> string \<Rightarrow> string list" where
  "components cur [] = (if cur = [] then [] else [cur])"
| "components cur (c # cs) =
     (if c = CHR ''/''
      then (if cur = [] then components [] cs else cur # components [] cs)
      else components (cur @ [c]) cs)"

definition resolve :: "string \<Rightarrow> string list" where
  "resolve p = components [] p"

subsection \<open>The filesystem\<close>

text \<open>
  A node is a directory or a regular file; a regular file is a name for an inode, so that
  two hard links to one file are two paths with the same inode. \<open>data\<close> gives the bytes of an
  inode.
\<close>

datatype node = Dir | File nat

record filesystem =
  nodes :: "string list \<Rightarrow> node option"
  data :: "nat \<Rightarrow> string"

text \<open>The names directly inside a directory.\<close>

definition entries :: "filesystem \<Rightarrow> string list \<Rightarrow> string set" where
  "entries f d = {n. nodes f (d @ [n]) \<noteq> None}"

text \<open>Every node but the root lies in a directory.\<close>

definition wf_fs :: "filesystem \<Rightarrow> bool" where
  "wf_fs f = (\<forall>p. p \<noteq> [] \<longrightarrow> nodes f p \<noteq> None \<longrightarrow> nodes f (butlast p) = Some Dir)"

text \<open>The file at a path is absent or has no bytes.\<close>

definition absent_or_empty :: "filesystem \<Rightarrow> string \<Rightarrow> bool" where
  "absent_or_empty f p =
     (case nodes f (resolve p) of
        None \<Rightarrow> True
      | Some Dir \<Rightarrow> False
      | Some (File i) \<Rightarrow> data f i = [])"

subsection \<open>Effects and the world\<close>

text \<open>One entry per call that leaves the function, with its arguments, in call order.\<close>

datatype effect =
    EMkdir string
  | ELink string string
  | EPopen "string list"
  | EPoll "int option"
  | ESendEvent string "string option"
  | ESleep nat
  | EExists string
  | ERmtree string

record world =
  fs :: filesystem
  trace :: "effect list"

definition log :: "effect \<Rightarrow> world \<Rightarrow> world" where
  "log e w = w\<lparr>trace := trace w @ [e]\<rparr>"

subsection \<open>The collaborators\<close>

text \<open>
  \<open>OutputFile\<close> of \<open>openrelik_worker_common\<close>: the path the tool is to write, and the
  dictionary \<open>to_dict()\<close> gives.
\<close>

record output_file =
  path :: string
  to_dict :: py_dict

text \<open>
  A launched process: whether it is still running at the \<open>k\<close>-th call of \<open>poll()\<close>
  (counted from 0), the exit status \<open>poll()\<close> returns once it is not, and what it has done
  to the filesystem by the time it has exited.
\<close>

record process =
  alive_at :: "nat \<Rightarrow> bool"
  returncode :: int
  writes :: "filesystem \<Rightarrow> filesystem"

text \<open>
  What the function does not decide: the value of \<open>uuid4().hex\<close>, the two helpers imported
  from \<open>openrelik_worker_common\<close> (\<open>Inl\<close> when they raise), refusals of the operating
  system for reasons outside the node table (permissions, devices, disk space), and the
  outcome of launching the binary.
\<close>

record env =
  uuid4_hex :: string
  get_input_files :: "string option \<Rightarrow> py_dict list \<Rightarrow> string + py_dict list"
  create_output_file :: "string option \<Rightarrow> string \<Rightarrow> string \<Rightarrow> string \<Rightarrow> string + output_file"
  mkdir_fault :: "string \<Rightarrow> errno option"
  link_fault :: "string \<Rightarrow> string \<Rightarrow> errno option"
  rmtree_fault :: "string \<Rightarrow> errno option"
  popen :: "string list \<Rightarrow> errno + process"

text \<open>
  \<open>task_result\<close> of \<open>openrelik_worker_common\<close> packs its three arguments; the record is
  that payload before it is serialised.
\<close>

record task_result =
  output_files :: "py_dict list"
  workflow_id :: "string option"
  command :: string

subsection \<open>The calls to the operating system\<close>

text \<open>\<open>os.mkdir(p)\<close>: the path must be free and its parent a directory.\<close>

definition os_mkdir :: "env \<Rightarrow> string \<Rightarrow> world \<Rightarrow> (error + unit) \<times> world" where
  "os_mkdir E p w =
     (let w' = log (EMkdir p) w; k = resolve p in
      case mkdir_fault E p of
        Some e \<Rightarrow> (Inl (OSError ''mkdir'' e), w')
      | None \<Rightarrow>
          if nodes (fs w') k \<noteq> None then (Inl (OSError ''mkdir'' EEXIST), w')
          else if nodes (fs w') (butlast k) \<noteq> Some Dir then (Inl (OSError ''mkdir'' ENOENT), w')
          else (Inr (), w'\<lparr>fs := (fs w')\<lparr>nodes := (nodes (fs w'))(k \<mapsto> Dir)\<rparr>\<rparr>))"

text \<open>
  \<open>os.link(src, dst)\<close>: the source must be a regular file, the destination free and in a
  directory; the destination then names the source's inode.
\<close>

definition os_link :: "env \<Rightarrow> string \<Rightarrow> string \<Rightarrow> world \<Rightarrow> (error + unit) \<times> world" where
  "os_link E src dst w =
     (let w' = log (ELink src dst) w; k = resolve dst in
      case link_fault E src dst of
        Some e \<Rightarrow> (Inl (OSError ''link'' e), w')
      | None \<Rightarrow>
          (case nodes (fs w') (resolve src) of
             None \<Rightarrow> (Inl (OSError ''link'' ENOENT), w')
           | Some Dir \<Rightarrow> (Inl (OSError ''link'' EPERM), w')
           | Some (File i) \<Rightarrow>
               if nodes (fs w') k \<noteq> None then (Inl (OSError ''link'' EEXIST), w')
               else if nodes (fs w') (butlast k) \<noteq> Some Dir then (Inl (OSError ''link'' ENOENT), w')
               else (Inr (), w'\<lparr>fs := (fs w')\<lparr>nodes := (nodes (fs w'))(k \<mapsto> File i)\<rparr>\<rparr>)))"

text \<open>\<open>os.path.exists(p)\<close>.\<close>

definition os_path_exists :: "string \<Rightarrow> world \<Rightarrow> bool \<times> world" where
  "os_path_exists p w = (nodes (fs w) (resolve p) \<noteq> None, log (EExists p) w)"

text \<open>
  \<open>shutil.rmtree(p)\<close>: removes the directory and everything below it; a path that is not a
  directory raises.
\<close>

definition shutil_rmtree :: "env \<Rightarrow> string \<Rightarrow> world \<Rightarrow> (error + unit) \<times> world" where
  "shutil_rmtree E p w =
     (let w' = log (ERmtree p) w; k = resolve p in
      case rmtree_fault E p of
        Some e \<Rightarrow> (Inl (OSError ''rmtree'' e), w')
      | None \<Rightarrow>
          (case nodes (fs w') k of
             None \<Rightarrow> (Inl (OSError ''rmtree'' ENOENT), w')
           | Some (File i) \<Rightarrow> (Inl (OSError ''rmtree'' ENOTDIR), w')
           | Some Dir \<Rightarrow>
               (Inr (), w'\<lparr>fs := (fs w')\<lparr>nodes := (\<lambda>q. if prefix k q then None else nodes (fs w') q)\<rparr>\<rparr>)))"

text \<open>\<open>subprocess.Popen(argv)\<close>: the launch fails, or there is a process.\<close>

definition subprocess_Popen :: "env \<Rightarrow> string list \<Rightarrow> world \<Rightarrow> (error + process) \<times> world" where
  "subprocess_Popen E argv w =
     (let w' = log (EPopen argv) w in
      case popen E argv of
        Inl e \<Rightarrow> (Inl (OSError ''Popen'' e), w')
      | Inr p \<Rightarrow> (Inr p, w'))"

text \<open>\<open>self.send_event(name, data=d)\<close> and \<open>time.sleep(n)\<close> only leave their mark.\<close>

definition send_event :: "string \<Rightarrow> string option \<Rightarrow> world \<Rightarrow> world" where
  "send_event name d w = log (ESendEvent name d) w"

definition time_sleep :: "nat \<Rightarrow> world \<Rightarrow> world" where
  "time_sleep n w = log (ESleep n) w"

subsection \<open>The task\<close>

text \<open>
  Lines 63 to 65, the loop over the input files. A file dictionary without \<open>path\<close> gives
  \<open>None\<close> to \<open>os.path.basename\<close>, which raises \<open>TypeError\<close>.
\<close>

fun link_files :: "env \<Rightarrow> string \<Rightarrow> py_dict list \<Rightarrow> world \<Rightarrow> (error + unit) \<times> world" where
  "link_files E temp_dir [] w = (Inr (), w)"
| "link_files E temp_dir (file # rest) w =
     (case dict_get file ''path'' of
        None \<Rightarrow> (Inl TypeError, w)
      | Some src \<Rightarrow>
          (let filename = basename src in
           case os_link E src (temp_dir @ ''/'' @ filename) w of
             (Inl e, w') \<Rightarrow> (Inl e, w')
           | (Inr u, w') \<Rightarrow> link_files E temp_dir rest w'))"

text \<open>Lines 62 to 65: the directory is made, then the files are linked into it.\<close>

definition stage_inputs :: "env \<Rightarrow> string \<Rightarrow> py_dict list \<Rightarrow> world \<Rightarrow> (error + unit) \<times> world" where
  "stage_inputs E temp_dir files w =
     (case os_mkdir E temp_dir w of
        (Inl e, w1) \<Rightarrow> (Inl e, w1)
      | (Inr u, w1) \<Rightarrow> link_files E temp_dir files w1)"

text \<open>Lines 68 to 82, the argument vector.\<close>

definition hayabusa_command :: "string \<Rightarrow> string \<Rightarrow> string list" where
  "hayabusa_command output_path temp_dir =
     [''/hayabusa/hayabusa'',
      ''json-timeline'',
      ''--ISO-8601'',
      ''--UTC'',
      ''--no-wizard'',
      ''--quiet'',
      ''--JSONL-output'',
      ''--profile'',
      ''super-verbose'',
      ''--output'',
      output_path,
      ''--directory'',
      temp_dir]"

definition INTERVAL_SECONDS :: nat where
  "INTERVAL_SECONDS = 2"

text \<open>
  Lines 87 to 89, the polling loop; \<open>k\<close> counts the calls of \<open>poll()\<close> made so far. While
  \<open>poll()\<close> returns \<open>None\<close> the loop sends an event and sleeps. When it returns the exit
  status the loop ends; the status is dropped. A process that never exits keeps the loop
  running for ever: the value is \<open>None\<close>.
\<close>

definition process_poll :: "process \<Rightarrow> nat \<Rightarrow> int option" where
  "process_poll p k = (if alive_at p k then None else Some (returncode p))"

partial_function (option) poll_loop :: "process \<Rightarrow> nat \<Rightarrow> world \<Rightarrow> world option" where
  "poll_loop p k w =
     (case process_poll p k of
        None \<Rightarrow>
          poll_loop p (Suc k)
            (time_sleep INTERVAL_SECONDS (send_event ''task-progress'' None (log (EPoll None) w)))
      | Some rc \<Rightarrow> Some ((log (EPoll (Some rc)) w)\<lparr>fs := writes p (fs w)\<rparr>))"

declare poll_loop.simps [code]

text \<open>
  Lines 95 to 107: the descriptor is appended, the list is tested, the result is built.
\<close>

definition collect_output ::
  "py_dict list \<Rightarrow> output_file \<Rightarrow> string option \<Rightarrow> string list \<Rightarrow> error + task_result" where
  "collect_output output_files0 output_file wid cmd =
     (let output_files1 = output_files0 @ [to_dict output_file] in
      if output_files1 = [] then Inl (RuntimeError ''Hayabusa didn't create any output files'')
      else Inr \<lparr>output_files = output_files1, workflow_id = wid,
                command = str_join '' '' cmd\<rparr>)"

text \<open>
  The whole function. The result is \<open>None\<close> when the function never returns, and otherwise
  the value returned or the exception raised, with the world as it then is.
\<close>

definition json_timeline ::
  "env \<Rightarrow> filesystem \<Rightarrow> string option \<Rightarrow> py_dict list option \<Rightarrow> string option \<Rightarrow> string option
     \<Rightarrow> py_dict \<Rightarrow> ((error + task_result) \<times> world) option" where
  "json_timeline E fs0 pipe_result input_files output_path wid task_config =
     (let w0 = \<lparr>fs = fs0, trace = []\<rparr> in
      case get_input_files E pipe_result (or_empty input_files) of
        Inl m \<Rightarrow> Some (Inl (HelperError m), w0)
      | Inr files \<Rightarrow>
      (let output_files0 = [] in
       case create_output_file E output_path ''Hayabusa_JSONL_timeline'' ''jsonl''
              ''openrelik:worker:hayabusa:file:jsonl'' of
         Inl m \<Rightarrow> Some (Inl (HelperError m), w0)
       | Inr output_file \<Rightarrow>
       (case os_path_join output_path (uuid4_hex E) of
          Inl e \<Rightarrow> Some (Inl e, w0)
        | Inr temp_dir \<Rightarrow>
        (case stage_inputs E temp_dir files w0 of
           (Inl e, w2) \<Rightarrow> Some (Inl e, w2)
         | (Inr u, w2) \<Rightarrow>
          (let cmd = hayabusa_command (path output_file) temp_dir in
           case subprocess_Popen E cmd w2 of
             (Inl e, w3) \<Rightarrow> Some (Inl e, w3)
           | (Inr p, w3) \<Rightarrow>
           (case poll_loop p 0 w3 of
              None \<Rightarrow> None
            | Some w4 \<Rightarrow>
            (case os_path_exists temp_dir w4 of
               (ex, w5) \<Rightarrow>
               (case (if ex then shutil_rmtree E temp_dir w5 else (Inr (), w5)) of
                  (Inl e, w6) \<Rightarrow> Some (Inl e, w6)
                | (Inr u, w6) \<Rightarrow>
                    Some (collect_output output_files0 output_file wid cmd, w6)))))))))"

subsection \<open>Vocabulary for the properties\<close>

text \<open>An error raised by one of the two staging calls, \<open>os.mkdir\<close> and \<open>os.link\<close>.\<close>

fun is_staging_error :: "error \<Rightarrow> bool" where
  "is_staging_error (OSError c n) = (c = ''mkdir'' \<or> c = ''link'')"
| "is_staging_error TypeError = False"
| "is_staging_error (RuntimeError m) = False"
| "is_staging_error (HelperError m) = False"

text \<open>The calls the loop over the source paths \<open>srcs\<close> makes: one link per path.\<close>

definition link_effects :: "string \<Rightarrow> string list \<Rightarrow> effect list" where
  "link_effects temp_dir srcs = map (\<lambda>s. ELink s (temp_dir @ ''/'' @ basename s)) srcs"

text \<open>
  \<open>n\<close> rounds of the polling loop: a poll that finds the process running, one event
  \<open>task-progress\<close> without data, one sleep of two seconds.
\<close>

definition progress_rounds :: "nat \<Rightarrow> effect list" where
  "progress_rounds n = concat (replicate n [EPoll None, ESendEvent ''task-progress'' None, ESleep 2])"

fun is_link :: "effect \<Rightarrow> bool" where
  "is_link (ELink s d) = True"
| "is_link (EMkdir p) = False"
| "is_link (EPopen a) = False"
| "is_link (EPoll r) = False"
| "is_link (ESendEvent n d) = False"
| "is_link (ESleep n) = False"
| "is_link (EExists p) = False"
| "is_link (ERmtree p) = False"

text \<open>The calls made by the polling loop: polls, events and sleeps.\<close>

fun is_loop_effect :: "effect \<Rightarrow> bool" where
  "is_loop_effect (EPoll r) = True"
| "is_loop_effect (ESendEvent n d) = True"
| "is_loop_effect (ESleep n) = True"
| "is_loop_effect (EMkdir p) = False"
| "is_loop_effect (ELink s d) = False"
| "is_loop_effect (EPopen a) = False"
| "is_loop_effect (EExists p) = False"
| "is_loop_effect (ERmtree p) = False"

fun is_popen :: "effect \<Rightarrow> bool" where
  "is_popen (EPopen a) = True"
| "is_popen (EMkdir p) = False"
| "is_popen (ELink s d) = False"
| "is_popen (EPoll r) = False"
| "is_popen (ESendEvent n d) = False"
| "is_popen (ESleep n) = False"
| "is_popen (EExists p) = False"
| "is_popen (ERmtree p) = False"

text \<open>The same environment, but every process it launches exits with status \<open>rc\<close>.\<close>

definition with_returncode :: "int \<Rightarrow> env \<Rightarrow> env" where
  "with_returncode rc E =
     E\<lparr>popen := (\<lambda>argv. case popen E argv of Inl e \<Rightarrow> Inl e | Inr p \<Rightarrow> Inr (p\<lparr>returncode := rc\<rparr>))\<rparr>"

subsection \<open>Concrete runs\<close>

text \<open>
  A small filesystem, an output file, a tool that runs for two polls and writes its
  timeline, a tool that exits at once with status 1 and writes nothing, and the
  environments built from them.
\<close>

definition fs_ex :: filesystem where
  "fs_ex = \<lparr>nodes = [[] \<mapsto> Dir, [''in''] \<mapsto> Dir, [''in'', ''a.evtx''] \<mapsto> File 1,
                     [''in'', ''b.evtx''] \<mapsto> File 2, [''in2''] \<mapsto> Dir,
                     [''in2'', ''a.evtx''] \<mapsto> File 3, [''out''] \<mapsto> Dir],
             data = (\<lambda>i. if i = 1 then ''AAAA'' else if i = 2 then ''BB'' else if i = 3 then ''C'' else [])\<rparr>"

definition out_ex :: output_file where
  "out_ex = \<lparr>path = ''/out/timeline.jsonl'',
              to_dict = [(''path'', ''/out/timeline.jsonl''),
                         (''data_type'', ''openrelik:worker:hayabusa:file:jsonl'')]\<rparr>"

definition proc_ex :: process where
  "proc_ex = \<lparr>alive_at = (\<lambda>k. k < 2), returncode = 0,
               writes = (\<lambda>f. f\<lparr>nodes := (nodes f)([''out'', ''timeline.jsonl''] \<mapsto> File 7),
                                data := (data f)(7 := ''{}'')\<rparr>)\<rparr>"

definition proc_silent :: process where
  "proc_silent = \<lparr>alive_at = (\<lambda>k. k < 1), returncode = 1, writes = (\<lambda>f. f)\<rparr>"

definition env_ex :: env where
  "env_ex = \<lparr>uuid4_hex = ''0123abcd'',
              get_input_files = (\<lambda>pr fs. Inr fs),
              create_output_file = (\<lambda>op fn ext dt. Inr out_ex),
              mkdir_fault = (\<lambda>p. None),
              link_fault = (\<lambda>s d. None),
              rmtree_fault = (\<lambda>p. None),
              popen = (\<lambda>argv. Inr proc_ex)\<rparr>"

definition env_silent :: env where
  "env_silent = env_ex\<lparr>popen := (\<lambda>argv. Inr proc_silent)\<rparr>"

text \<open>The operating system refuses to link \<open>/in/b.evtx\<close> across devices.\<close>

definition env_xdev :: env where
  "env_xdev = env_ex\<lparr>link_fault := (\<lambda>s d. if s = ''/in/b.evtx'' then Some EXDEV else None)\<rparr>"

definition env_nolaunch :: env where
  "env_nolaunch = env_ex\<lparr>popen := (\<lambda>argv. Inl ENOENT)\<rparr>"

definition files_ex :: "py_dict list" where
  "files_ex = [[(''path'', ''/in/a.evtx'')], [(''path'', ''/in/b.evtx'')]]"

definition files_dup :: "py_dict list" where
  "files_dup = [[(''path'', ''/in/a.evtx'')], [(''path'', ''/in2/a.evtx'')]]"


text \<open>The result of the run of \<open>env_ex\<close> over \<open>files_ex\<close>.\<close>

definition r_ex :: task_result where
  "r_ex = \<lparr>output_files = [to_dict out_ex], workflow_id = Some ''wf-1'',
            command = ''/hayabusa/hayabusa json-timeline --ISO-8601 --UTC --no-wizard --quiet --JSONL-output --profile super-verbose --output /out/timeline.jsonl --directory /out/0123abcd''\<rparr>"


section \<open>Paths and staging\<close>

lemma components_slash: "components cur (a @ CHR ''/'' # b) = components cur a @ components [] b"
  by (induction a arbitrary: cur) auto
lemma components_noslash: "CHR ''/'' \<notin> set f \<Longrightarrow> components cur f = (if cur @ f = [] then [] else [cur @ f])"
  by (induction f arbitrary: cur) auto
lemma basename_noslash: "CHR ''/'' \<notin> set (basename p)"
  unfolding basename_def using set_takeWhileD by fastforce
lemma resolve_child: "resolve (d @ ''/'' @ basename p) = resolve d @ (if basename p = [] then [] else [basename p])"
  by (simp add: resolve_def components_slash components_noslash basename_noslash)

lemma os_link_Inr:
  assumes "os_link E src dst w = (Inr u, w')"
  shows "\<exists>i. nodes (fs w) (resolve src) = Some (File i) \<and> nodes (fs w) (resolve dst) = None
           \<and> nodes (fs w) (butlast (resolve dst)) = Some Dir
           \<and> fs w' = (fs w)\<lparr>nodes := (nodes (fs w))(resolve dst \<mapsto> File i)\<rparr>
           \<and> trace w' = trace w @ [ELink src dst]"
  using assms
  by (auto simp: os_link_def log_def Let_def split: option.splits node.splits if_splits)

lemma os_link_Inl:
  assumes "os_link E src dst w = (Inl e, w')"
  shows "(\<exists>n. e = OSError ''link'' n) \<and> fs w' = fs w \<and> trace w' = trace w @ [ELink src dst]"
  using assms
  by (auto simp: os_link_def log_def Let_def split: option.splits node.splits if_splits)

lemma os_mkdir_Inr:
  assumes "os_mkdir E p w = (Inr u, w')"
  shows "nodes (fs w) (resolve p) = None \<and> nodes (fs w) (butlast (resolve p)) = Some Dir
           \<and> fs w' = (fs w)\<lparr>nodes := (nodes (fs w))(resolve p \<mapsto> Dir)\<rparr>
           \<and> trace w' = trace w @ [EMkdir p]"
  using assms
  by (auto simp: os_mkdir_def log_def Let_def split: option.splits if_splits)

lemma os_mkdir_Inl:
  assumes "os_mkdir E p w = (Inl e, w')"
  shows "(\<exists>n. e = OSError ''mkdir'' n) \<and> fs w' = fs w \<and> trace w' = trace w @ [EMkdir p]"
  using assms
  by (auto simp: os_mkdir_def log_def Let_def split: option.splits if_splits)

lemma link_files_trace:
  assumes "link_files E t files w = (r, w')"
  shows "\<exists>es. trace w' = trace w @ es \<and> (\<forall>e\<in>set es. is_link e)"
  using assms
proof (induction files arbitrary: w)
  case Nil
  then show ?case by simp
next
  case (Cons f files)
  show ?case
  proof (cases "dict_get f ''path''")
    case None
    with Cons.prems show ?thesis by simp
  next
    case (Some src)
    obtain r1 w1 where l: "os_link E src (t @ ''/'' @ basename src) w = (r1, w1)"
      by (cases "os_link E src (t @ ''/'' @ basename src) w") auto
    show ?thesis
    proof (cases r1)
      case (Inl e)
      with l Some Cons.prems have "w' = w1" by simp
      with l Inl os_link_Inl show ?thesis by fastforce
    next
      case (Inr u)
      with l Some Cons.prems have "link_files E t files w1 = (r, w')" by simp
      from Cons.IH[OF this] obtain es where "trace w' = trace w1 @ es" "\<forall>e\<in>set es. is_link e" by blast
      moreover from l Inr os_link_Inr have "trace w1 = trace w @ [ELink src (t @ ''/'' @ basename src)]" by blast
      ultimately have "trace w' = trace w @ (ELink src (t @ ''/'' @ basename src) # es)
         \<and> (\<forall>e\<in>set (ELink src (t @ ''/'' @ basename src) # es). is_link e)" by simp
      then show ?thesis by blast
    qed
  qed
qed

lemma link_files_calls:
  assumes "link_files E t files w = (r, w')"
    and "map (\<lambda>f. dict_get f ''path'') files = map Some srcs"
  shows "\<exists>m\<le>length srcs. trace w' = trace w @ link_effects t (take m srcs)
           \<and> (case r of Inl e \<Rightarrow> is_staging_error e \<and> 0 < m | Inr u \<Rightarrow> m = length srcs)"
  using assms
proof (induction files arbitrary: w srcs)
  case Nil
  then show ?case by (auto simp: link_effects_def)
next
  case (Cons f files)
  from Cons.prems(2) obtain src rest where srcs: "srcs = src # rest"
    and f: "dict_get f ''path'' = Some src"
    and rest: "map (\<lambda>f. dict_get f ''path'') files = map Some rest"
    by (cases srcs) auto
  obtain r1 w1 where l: "os_link E src (t @ ''/'' @ basename src) w = (r1, w1)"
    by (cases "os_link E src (t @ ''/'' @ basename src) w") auto
  show ?case
  proof (cases r1)
    case (Inl e)
    with l f Cons.prems(1) have "w' = w1" "r = Inl e" by simp_all
    moreover from l Inl os_link_Inl have "(\<exists>n. e = OSError ''link'' n) \<and> trace w1 = trace w @ [ELink src (t @ ''/'' @ basename src)]"
      by blast
    ultimately have "Suc 0 \<le> length srcs \<and> trace w' = trace w @ link_effects t (take (Suc 0) srcs)
           \<and> (case r of Inl e \<Rightarrow> is_staging_error e \<and> 0 < Suc 0 | Inr u \<Rightarrow> Suc 0 = length srcs)"
      using srcs by (auto simp: link_effects_def)
    then show ?thesis by blast
  next
    case (Inr u)
    with l f Cons.prems(1) have "link_files E t files w1 = (r, w')" by simp
    from Cons.IH[OF this rest] obtain m where m: "m \<le> length rest"
      "trace w' = trace w1 @ link_effects t (take m rest)"
      "(case r of Inl e \<Rightarrow> is_staging_error e \<and> 0 < m | Inr u \<Rightarrow> m = length rest)" by blast
    moreover from l Inr os_link_Inr have "trace w1 = trace w @ [ELink src (t @ ''/'' @ basename src)]" by blast
    ultimately have "Suc m \<le> length srcs \<and> trace w' = trace w @ link_effects t (take (Suc m) srcs)
           \<and> (case r of Inl e \<Rightarrow> is_staging_error e \<and> 0 < Suc m | Inr u \<Rightarrow> Suc m = length srcs)"
      using srcs by (auto simp: link_effects_def split: sum.splits)
    then show ?thesis by blast
  qed
qed


lemma link_files_Inr:
  assumes "link_files E t files w = (Inr u, w')"
  shows "\<exists>srcs. map (\<lambda>f. dict_get f ''path'') files = map Some srcs
           \<and> distinct (map (\<lambda>s. resolve (t @ ''/'' @ basename s)) srcs)
           \<and> (\<forall>s\<in>set srcs. \<exists>i. nodes (fs w') (resolve s) = Some (File i)
                  \<and> nodes (fs w') (resolve (t @ ''/'' @ basename s)) = Some (File i)
                  \<and> nodes (fs w) (resolve (t @ ''/'' @ basename s)) = None)
           \<and> (\<forall>q. q \<notin> (\<lambda>s. resolve (t @ ''/'' @ basename s)) ` set srcs \<longrightarrow> nodes (fs w') q = nodes (fs w) q)
           \<and> data (fs w') = data (fs w)"
  using assms
proof (induction files arbitrary: w)
  case Nil
  then show ?case by auto
next
  case (Cons f files)
  from Cons.prems obtain src where f: "dict_get f ''path'' = Some src"
    by (cases "dict_get f ''path''") auto
  define dst where "dst = t @ ''/'' @ basename src"
  obtain r1 w1 where l: "os_link E src dst w = (r1, w1)"
    by (cases "os_link E src dst w") auto
  with f Cons.prems obtain u1 where r1: "r1 = Inr u1"
    by (cases r1) (auto simp: dst_def)
  with l f Cons.prems have rec: "link_files E t files w1 = (Inr u, w')"
    by (simp add: dst_def)
  from os_link_Inr[OF l[unfolded r1]] obtain i where
    i: "nodes (fs w) (resolve src) = Some (File i)" "nodes (fs w) (resolve dst) = None"
       "fs w1 = (fs w)\<lparr>nodes := (nodes (fs w))(resolve dst \<mapsto> File i)\<rparr>" by blast
  from Cons.IH[OF rec] obtain srcs where
    s1: "map (\<lambda>f. dict_get f ''path'') files = map Some srcs"
    and s2: "distinct (map (\<lambda>s. resolve (t @ ''/'' @ basename s)) srcs)"
    and s3: "\<forall>s\<in>set srcs. \<exists>i. nodes (fs w') (resolve s) = Some (File i)
                  \<and> nodes (fs w') (resolve (t @ ''/'' @ basename s)) = Some (File i)
                  \<and> nodes (fs w1) (resolve (t @ ''/'' @ basename s)) = None"
    and s4: "\<forall>q. q \<notin> (\<lambda>s. resolve (t @ ''/'' @ basename s)) ` set srcs \<longrightarrow> nodes (fs w') q = nodes (fs w1) q"
    and s5: "data (fs w') = data (fs w1)" by blast
  have n1: "nodes (fs w1) q = (if q = resolve dst then Some (File i) else nodes (fs w) q)" for q
    using i(3) by simp
  have keep: "nodes (fs w') q = nodes (fs w1) q" if "nodes (fs w1) q \<noteq> None" for q
  proof -
    from that s3 have "q \<notin> (\<lambda>s. resolve (t @ ''/'' @ basename s)) ` set srcs" by force
    with s4 show ?thesis by blast
  qed
  have notin: "resolve dst \<notin> (\<lambda>s. resolve (t @ ''/'' @ basename s)) ` set srcs"
    using s3 n1 by force
  have a: "map (\<lambda>f. dict_get f ''path'') (f # files) = map Some (src # srcs)"
    using f s1 by simp
  have b: "distinct (map (\<lambda>s. resolve (t @ ''/'' @ basename s)) (src # srcs))"
    using s2 notin by (simp add: dst_def)
  have c: "\<exists>j. nodes (fs w') (resolve s) = Some (File j)
                  \<and> nodes (fs w') (resolve (t @ ''/'' @ basename s)) = Some (File j)
                  \<and> nodes (fs w) (resolve (t @ ''/'' @ basename s)) = None"
    if "s \<in> set (src # srcs)" for s
  proof (cases "s = src")
    case True
    have "nodes (fs w1) (resolve dst) = Some (File i)" using n1 by simp
    moreover have "nodes (fs w1) (resolve src) = Some (File i)" using n1 i by auto
    ultimately have "nodes (fs w') (resolve dst) = Some (File i)" "nodes (fs w') (resolve src) = Some (File i)"
      using keep by simp_all
    with True i show ?thesis by (simp add: dst_def)
  next
    case False
    with that have "s \<in> set srcs" by simp
    with s3 obtain j where j: "nodes (fs w') (resolve s) = Some (File j)"
      "nodes (fs w') (resolve (t @ ''/'' @ basename s)) = Some (File j)"
      "nodes (fs w1) (resolve (t @ ''/'' @ basename s)) = None" by blast
    from j(3) n1 have "nodes (fs w) (resolve (t @ ''/'' @ basename s)) = None"
      by (auto split: if_splits)
    with j show ?thesis by blast
  qed
  have d: "nodes (fs w') q = nodes (fs w) q"
    if "q \<notin> (\<lambda>s. resolve (t @ ''/'' @ basename s)) ` set (src # srcs)" for q
  proof -
    from that have "q \<noteq> resolve dst" "q \<notin> (\<lambda>s. resolve (t @ ''/'' @ basename s)) ` set srcs"
      by (auto simp: dst_def)
    with s4 n1 show ?thesis by simp
  qed
  have e: "data (fs w') = data (fs w)" using s5 i(3) by simp
  from a b c d e show ?case by blast
qed

section \<open>The polling loop\<close>


lemma progress_rounds_Suc:
  "progress_rounds (Suc n) = [EPoll None, ESendEvent ''task-progress'' None, ESleep 2] @ progress_rounds n"
  by (simp add: progress_rounds_def)

lemma progress_rounds_0: "progress_rounds 0 = []"
  by (simp add: progress_rounds_def)

lemma poll_loop_dead:
  assumes "\<not> alive_at p k"
  shows "poll_loop p k w = Some \<lparr>fs = writes p (fs w), trace = trace w @ [EPoll (Some (returncode p))]\<rparr>"
  using assms by (subst poll_loop.simps) (simp add: process_poll_def log_def)

lemma poll_loop_alive:
  assumes "alive_at p k"
  shows "poll_loop p k w = poll_loop p (Suc k) (w\<lparr>trace := trace w @ progress_rounds 1\<rparr>)"
  using assms
  by (subst poll_loop.simps)
     (simp add: process_poll_def log_def time_sleep_def send_event_def INTERVAL_SECONDS_def
        progress_rounds_def)

lemma poll_loop_steps:
  assumes "\<forall>i<n. alive_at p (k + i)"
  shows "poll_loop p k w = poll_loop p (k + n) (w\<lparr>trace := trace w @ progress_rounds n\<rparr>)"
  using assms
proof (induction n arbitrary: k w)
  case 0
  then show ?case by (simp add: progress_rounds_0)
next
  case (Suc n)
  from Suc.prems have a: "alive_at p k" by force
  from Suc.prems have "\<forall>i<n. alive_at p (Suc k + i)" by auto
  from Suc.IH[OF this] a show ?case
    by (simp add: poll_loop_alive progress_rounds_Suc progress_rounds_def)
qed

lemma poll_loop_exit:
  assumes "\<forall>i<n. alive_at p (k + i)" and "\<not> alive_at p (k + n)"
  shows "poll_loop p k w =
    Some \<lparr>fs = writes p (fs w), trace = trace w @ progress_rounds n @ [EPoll (Some (returncode p))]\<rparr>"
  using poll_loop_steps[OF assms(1)] poll_loop_dead[OF assms(2)] by simp

lemma poll_loop_Some:
  assumes "poll_loop p k w = Some w'"
  shows "\<exists>n. (\<forall>i<n. alive_at p (k + i)) \<and> \<not> alive_at p (k + n)"
proof (rule poll_loop.raw_induct
    [where P = "\<lambda>p k w w'. \<exists>n. (\<forall>i<n. alive_at p (k + i)) \<and> \<not> alive_at p (k + n)", OF _ assms],
    goal_cases)
  case (1 f p k w y)
  show ?case
  proof (cases "alive_at p k")
    case True
    then have pn: "process_poll p k = None" by (simp add: process_poll_def)
    have "f p (Suc k) (time_sleep INTERVAL_SECONDS (send_event ''task-progress'' None (log (EPoll None) w))) = Some y"
      using 1(2) unfolding pn by simp
    from 1(1)[OF this] obtain n where n: "\<forall>i<n. alive_at p (Suc k + i)" "\<not> alive_at p (Suc k + n)" by blast
    have "\<forall>i<Suc n. alive_at p (k + i)"
    proof (intro allI impI)
      fix i assume "i < Suc n"
      then show "alive_at p (k + i)" using True n(1) by (cases i) auto
    qed
    with n(2) show ?thesis by (intro exI[of _ "Suc n"]) simp
  next
    case False
    then show ?thesis by (intro exI[of _ 0]) simp
  qed
qed

lemma poll_loop_None_iff:
  "poll_loop p k w = None \<longleftrightarrow> (\<forall>n. alive_at p (k + n))"
proof
  assume n: "poll_loop p k w = None"
  show "\<forall>n. alive_at p (k + n)"
  proof (rule ccontr)
    assume "\<not> (\<forall>n. alive_at p (k + n))"
    then have ex: "\<exists>n. \<not> alive_at p (k + n)" by blast
    define m where "m = (LEAST n. \<not> alive_at p (k + n))"
    have "\<not> alive_at p (k + m)" unfolding m_def using ex by (rule LeastI_ex)
    moreover have "\<forall>i<m. alive_at p (k + i)" unfolding m_def using not_less_Least by blast
    ultimately show False using poll_loop_exit n by fastforce
  qed
next
  assume a: "\<forall>n. alive_at p (k + n)"
  show "poll_loop p k w = None"
  proof (cases "poll_loop p k w")
    case None then show ?thesis .
  next
    case (Some w')
    from poll_loop_Some[OF this] a show ?thesis by blast
  qed
qed

lemma poll_loop_SomeD:
  assumes "poll_loop p k w = Some w'"
  shows "\<exists>n. (\<forall>i<n. alive_at p (k + i)) \<and> \<not> alive_at p (k + n)
     \<and> w' = \<lparr>fs = writes p (fs w), trace = trace w @ progress_rounds n @ [EPoll (Some (returncode p))]\<rparr>"
proof -
  from poll_loop_Some[OF assms] obtain n where n: "\<forall>i<n. alive_at p (k + i)" "\<not> alive_at p (k + n)" by blast
  from poll_loop_exit[OF this] assms have "w' = \<lparr>fs = writes p (fs w), trace = trace w @ progress_rounds n @ [EPoll (Some (returncode p))]\<rparr>"
    by simp
  with n show ?thesis by blast
qed

section \<open>The paths through the task\<close>

lemma shutil_rmtree_Inr:
  assumes "shutil_rmtree E p w = (Inr u, w')"
  shows "nodes (fs w') (resolve p) = None \<and> trace w' = trace w @ [ERmtree p]
     \<and> data (fs w') = data (fs w)
     \<and> (\<forall>q. nodes (fs w') q = (if prefix (resolve p) q then None else nodes (fs w) q))"
  using assms
  by (auto simp: shutil_rmtree_def log_def Let_def split: option.splits node.splits)

lemma shutil_rmtree_Inl:
  assumes "shutil_rmtree E p w = (Inl e, w')"
  shows "(\<exists>n. e = OSError ''rmtree'' n) \<and> trace w' = trace w @ [ERmtree p] \<and> fs w' = fs w"
  using assms
  by (auto simp: shutil_rmtree_def log_def Let_def split: option.splits node.splits)

lemma stage_inputs_Inl:
  assumes "stage_inputs E t files w = (Inl e, w')"
  shows "\<exists>es. trace w' = trace w @ EMkdir t # es \<and> (\<forall>x\<in>set es. is_link x)"
proof (cases "os_mkdir E t w")
  case (Pair r1 w1)
  show ?thesis
  proof (cases r1)
    case (Inl e1)
    with Pair assms have "w' = w1" by (simp add: stage_inputs_def)
    with Pair Inl os_mkdir_Inl[of E t w e1 w1] show ?thesis by auto
  next
    case (Inr u)
    with Pair assms have l: "link_files E t files w1 = (Inl e, w')" by (simp add: stage_inputs_def)
    from link_files_trace[OF l] obtain es where "trace w' = trace w1 @ es" "\<forall>x\<in>set es. is_link x" by blast
    with Pair Inr os_mkdir_Inr[of E t w u w1] show ?thesis by auto
  qed
qed

lemma stage_inputs_Inr:
  assumes "stage_inputs E t files w = (Inr u, w')"
  shows "\<exists>w1 es. os_mkdir E t w = (Inr (), w1) \<and> link_files E t files w1 = (Inr (), w')
      \<and> trace w' = trace w @ EMkdir t # es \<and> (\<forall>x\<in>set es. is_link x)"
proof (cases "os_mkdir E t w")
  case (Pair r1 w1)
  show ?thesis
  proof (cases r1)
    case (Inl e1)
    with Pair assms show ?thesis by (simp add: stage_inputs_def)
  next
    case (Inr u1)
    with Pair assms have l: "link_files E t files w1 = (Inr (), w')" by (simp add: stage_inputs_def)
    from link_files_trace[OF l] obtain es where "trace w' = trace w1 @ es" "\<forall>x\<in>set es. is_link x" by blast
    with Pair Inr l os_mkdir_Inr[of E t w u1 w1] show ?thesis by auto
  qed
qed

lemma json_timeline_stage_fail:
  assumes "get_input_files E pr (or_empty inp) = Inr files"
    and "create_output_file E outp ''Hayabusa_JSONL_timeline'' ''jsonl''
           ''openrelik:worker:hayabusa:file:jsonl'' = Inr ofile"
    and "os_path_join outp (uuid4_hex E) = Inr t"
    and "stage_inputs E t files \<lparr>fs = fs0, trace = []\<rparr> = (Inl e, w2)"
  shows "json_timeline E fs0 pr inp outp wid cfg = Some (Inl e, w2)"
  using assms by (simp add: json_timeline_def)

lemma json_timeline_popen_fail:
  assumes "get_input_files E pr (or_empty inp) = Inr files"
    and "create_output_file E outp ''Hayabusa_JSONL_timeline'' ''jsonl''
           ''openrelik:worker:hayabusa:file:jsonl'' = Inr ofile"
    and "os_path_join outp (uuid4_hex E) = Inr t"
    and "stage_inputs E t files \<lparr>fs = fs0, trace = []\<rparr> = (Inr u, w2)"
    and "popen E (hayabusa_command (path ofile) t) = Inl n"
  shows "json_timeline E fs0 pr inp outp wid cfg =
     Some (Inl (OSError ''Popen'' n), log (EPopen (hayabusa_command (path ofile) t)) w2)"
  using assms by (simp add: json_timeline_def subprocess_Popen_def)

lemma json_timeline_launched:
  assumes "get_input_files E pr (or_empty inp) = Inr files"
    and "create_output_file E outp ''Hayabusa_JSONL_timeline'' ''jsonl''
           ''openrelik:worker:hayabusa:file:jsonl'' = Inr ofile"
    and "os_path_join outp (uuid4_hex E) = Inr t"
    and "stage_inputs E t files \<lparr>fs = fs0, trace = []\<rparr> = (Inr u, w2)"
    and "popen E (hayabusa_command (path ofile) t) = Inr p"
  shows "json_timeline E fs0 pr inp outp wid cfg =
     (case poll_loop p 0 (log (EPopen (hayabusa_command (path ofile) t)) w2) of
        None \<Rightarrow> None
      | Some w4 \<Rightarrow>
          (case (if nodes (fs w4) (resolve t) \<noteq> None then shutil_rmtree E t (log (EExists t) w4)
                 else (Inr (), log (EExists t) w4)) of
             (Inl e, w6) \<Rightarrow> Some (Inl e, w6)
           | (Inr u, w6) \<Rightarrow>
               Some (collect_output [] ofile wid (hayabusa_command (path ofile) t), w6)))"
  using assms
  by (simp add: json_timeline_def subprocess_Popen_def os_path_exists_def split: option.splits)

lemma json_timeline_diverges:
  assumes "get_input_files E pr (or_empty inp) = Inr files"
    and "create_output_file E outp ''Hayabusa_JSONL_timeline'' ''jsonl''
           ''openrelik:worker:hayabusa:file:jsonl'' = Inr ofile"
    and "os_path_join outp (uuid4_hex E) = Inr t"
    and "stage_inputs E t files \<lparr>fs = fs0, trace = []\<rparr> = (Inr u, w2)"
    and "popen E (hayabusa_command (path ofile) t) = Inr p"
    and "\<forall>k. alive_at p k"
  shows "json_timeline E fs0 pr inp outp wid cfg = None"
proof -
  have "poll_loop p 0 (log (EPopen (hayabusa_command (path ofile) t)) w2) = None"
    using assms(6) by (simp add: poll_loop_None_iff)
  then show ?thesis by (simp add: json_timeline_launched[OF assms(1-5)])
qed

lemma collect_output_eq:
  "collect_output [] ofile wid cmd =
     Inr \<lparr>output_files = [to_dict ofile], workflow_id = wid, command = str_join '' '' cmd\<rparr>"
  by (simp add: collect_output_def)

lemma json_timeline_cases:
  assumes run: "json_timeline E fs0 pr inp outp wid cfg = Some (res, w')"
  obtains
    (helper) m where "res = Inl (HelperError m)" "w' = \<lparr>fs = fs0, trace = []\<rparr>"
      "get_input_files E pr (or_empty inp) = Inl m
         \<or> create_output_file E outp ''Hayabusa_JSONL_timeline'' ''jsonl''
           ''openrelik:worker:hayabusa:file:jsonl'' = Inl m"
  | (join) "res = Inl TypeError" "w' = \<lparr>fs = fs0, trace = []\<rparr>"
      "os_path_join outp (uuid4_hex E) = Inl TypeError"
  | (stage) files ofile t e where
      "get_input_files E pr (or_empty inp) = Inr files"
      "create_output_file E outp ''Hayabusa_JSONL_timeline'' ''jsonl''
           ''openrelik:worker:hayabusa:file:jsonl'' = Inr ofile"
      "os_path_join outp (uuid4_hex E) = Inr t"
      "stage_inputs E t files \<lparr>fs = fs0, trace = []\<rparr> = (Inl e, w')"
      "res = Inl e"
  | (launch) files ofile t w2 n where
      "get_input_files E pr (or_empty inp) = Inr files"
      "create_output_file E outp ''Hayabusa_JSONL_timeline'' ''jsonl''
           ''openrelik:worker:hayabusa:file:jsonl'' = Inr ofile"
      "os_path_join outp (uuid4_hex E) = Inr t"
      "stage_inputs E t files \<lparr>fs = fs0, trace = []\<rparr> = (Inr (), w2)"
      "popen E (hayabusa_command (path ofile) t) = Inl n"
      "res = Inl (OSError ''Popen'' n)"
      "w' = log (EPopen (hayabusa_command (path ofile) t)) w2"
  | (exited) files ofile t w2 p n ex where
      "get_input_files E pr (or_empty inp) = Inr files"
      "create_output_file E outp ''Hayabusa_JSONL_timeline'' ''jsonl''
           ''openrelik:worker:hayabusa:file:jsonl'' = Inr ofile"
      "os_path_join outp (uuid4_hex E) = Inr t"
      "stage_inputs E t files \<lparr>fs = fs0, trace = []\<rparr> = (Inr (), w2)"
      "popen E (hayabusa_command (path ofile) t) = Inr p"
      "\<forall>i<n. alive_at p i" "\<not> alive_at p n"
      "trace w' = trace w2 @ EPopen (hayabusa_command (path ofile) t) # progress_rounds n
          @ [EPoll (Some (returncode p)), EExists t] @ (if ex then [ERmtree t] else [])"
      "(res = collect_output [] ofile wid (hayabusa_command (path ofile) t)
          \<and> nodes (fs w') (resolve t) = None)
        \<or> (\<exists>m. res = Inl (OSError ''rmtree'' m))"
proof (cases "get_input_files E pr (or_empty inp)")
  case (Inl m)
  with run have "res = Inl (HelperError m)" "w' = \<lparr>fs = fs0, trace = []\<rparr>"
    by (simp_all add: json_timeline_def)
  moreover from Inl have "get_input_files E pr (or_empty inp) = Inl m
         \<or> create_output_file E outp ''Hayabusa_JSONL_timeline'' ''jsonl''
           ''openrelik:worker:hayabusa:file:jsonl'' = Inl m" by simp
  ultimately show ?thesis by (rule helper)
next
  case g: (Inr files)
  show ?thesis
  proof (cases "create_output_file E outp ''Hayabusa_JSONL_timeline'' ''jsonl''
           ''openrelik:worker:hayabusa:file:jsonl''")
    case (Inl m)
    with run g have "res = Inl (HelperError m)" "w' = \<lparr>fs = fs0, trace = []\<rparr>"
      by (simp_all add: json_timeline_def)
    moreover from Inl have "get_input_files E pr (or_empty inp) = Inl m
         \<or> create_output_file E outp ''Hayabusa_JSONL_timeline'' ''jsonl''
           ''openrelik:worker:hayabusa:file:jsonl'' = Inl m" by simp
    ultimately show ?thesis by (rule helper)
  next
    case c: (Inr ofile)
    show ?thesis
    proof (cases "os_path_join outp (uuid4_hex E)")
      case (Inl e)
      then have "e = TypeError"
        by (auto simp: os_path_join_def split: option.splits if_splits)
      with Inl run g c have "res = Inl TypeError" "w' = \<lparr>fs = fs0, trace = []\<rparr>"
          "os_path_join outp (uuid4_hex E) = Inl TypeError"
        by (simp_all add: json_timeline_def)
      then show ?thesis by (rule join)
    next
      case j: (Inr t)
      obtain r2 w2 where st: "stage_inputs E t files \<lparr>fs = fs0, trace = []\<rparr> = (r2, w2)"
        by (cases "stage_inputs E t files \<lparr>fs = fs0, trace = []\<rparr>") auto
      show ?thesis
      proof (cases r2)
        case (Inl e)
        with st json_timeline_stage_fail[OF g c j, of fs0 e w2 wid cfg] run
        have "res = Inl e" "w' = w2" by simp_all
        with st Inl show ?thesis using stage[OF g c j] by simp
      next
        case (Inr u)
        with st have st': "stage_inputs E t files \<lparr>fs = fs0, trace = []\<rparr> = (Inr (), w2)" by simp
        let ?cmd = "hayabusa_command (path ofile) t"
        show ?thesis
        proof (cases "popen E ?cmd")
          case (Inl n)
          from json_timeline_popen_fail[OF g c j st' Inl, of wid cfg] run
          have "res = Inl (OSError ''Popen'' n)" "w' = log (EPopen ?cmd) w2" by simp_all
          then show ?thesis using launch[OF g c j st' Inl] by simp
        next
          case po: (Inr p)
          note eq = json_timeline_launched[OF g c j st' po, of wid cfg]
          from run eq obtain w4 where w4: "poll_loop p 0 (log (EPopen ?cmd) w2) = Some w4"
            by (cases "poll_loop p 0 (log (EPopen ?cmd) w2)") auto
          from poll_loop_SomeD[OF w4] obtain n where n: "\<forall>i<n. alive_at p i" "\<not> alive_at p n"
            and w4e: "w4 = \<lparr>fs = writes p (fs w2),
               trace = trace w2 @ [EPopen ?cmd] @ progress_rounds n @ [EPoll (Some (returncode p))]\<rparr>"
            by (auto simp: log_def)
          show ?thesis
          proof (cases "nodes (fs w4) (resolve t) \<noteq> None")
            case False
            with run eq w4 have r: "res = collect_output [] ofile wid ?cmd" "w' = log (EExists t) w4"
              by simp_all
            with False w4e have
              "trace w' = trace w2 @ EPopen ?cmd # progress_rounds n
                 @ [EPoll (Some (returncode p)), EExists t] @ (if False then [ERmtree t] else [])"
              "(res = collect_output [] ofile wid ?cmd \<and> nodes (fs w') (resolve t) = None)
                 \<or> (\<exists>m. res = Inl (OSError ''rmtree'' m))"
              by (simp_all add: log_def)
            then show ?thesis using exited[OF g c j st' po n] by blast
          next
            case True
            obtain r6 w6 where rm: "shutil_rmtree E t (log (EExists t) w4) = (r6, w6)"
              by (cases "shutil_rmtree E t (log (EExists t) w4)") auto
            show ?thesis
            proof (cases r6)
              case (Inl e)
              with run eq w4 True rm have r: "res = Inl e" "w' = w6" by simp_all
              from shutil_rmtree_Inl[OF rm[unfolded Inl]] r w4e have
                "trace w' = trace w2 @ EPopen ?cmd # progress_rounds n
                   @ [EPoll (Some (returncode p)), EExists t] @ (if True then [ERmtree t] else [])"
                "(res = collect_output [] ofile wid ?cmd \<and> nodes (fs w') (resolve t) = None)
                   \<or> (\<exists>m. res = Inl (OSError ''rmtree'' m))"
                by (auto simp: log_def)
              then show ?thesis using exited[OF g c j st' po n] by blast
            next
              case (Inr u6)
              with run eq w4 True rm have r: "res = collect_output [] ofile wid ?cmd" "w' = w6"
                by simp_all
              from shutil_rmtree_Inr[OF rm[unfolded Inr]] r w4e have
                "trace w' = trace w2 @ EPopen ?cmd # progress_rounds n
                   @ [EPoll (Some (returncode p)), EExists t] @ (if True then [ERmtree t] else [])"
                "(res = collect_output [] ofile wid ?cmd \<and> nodes (fs w') (resolve t) = None)
                   \<or> (\<exists>m. res = Inl (OSError ''rmtree'' m))"
                by (auto simp: log_def)
              then show ?thesis using exited[OF g c j st' po n] by blast
            qed
          qed
        qed
      qed
    qed
  qed
qed

section \<open>The concrete runs\<close>

lemma resolve_ex: "resolve ''/out/0123abcd'' = [''out'', ''0123abcd'']"
  "resolve ''/in/a.evtx'' = [''in'', ''a.evtx'']" "resolve ''/in/b.evtx'' = [''in'', ''b.evtx'']"
  "resolve ''/in2/a.evtx'' = [''in2'', ''a.evtx'']"
  "resolve ''/out/0123abcd/a.evtx'' = [''out'', ''0123abcd'', ''a.evtx'']"
  "resolve ''/out/0123abcd/b.evtx'' = [''out'', ''0123abcd'', ''b.evtx'']"
  "resolve ''/out/timeline.jsonl'' = [''out'', ''timeline.jsonl'']"
  by (simp_all add: resolve_def)

lemma basename_ex: "basename ''/in/a.evtx'' = ''a.evtx''" "basename ''/in/b.evtx'' = ''b.evtx''"
  "basename ''/in2/a.evtx'' = ''a.evtx''"
  by (simp_all add: basename_def)

lemma join_ex: "os_path_join (Some ''/out'') ''0123abcd'' = Inr ''/out/0123abcd''"
  by (simp add: os_path_join_def)

lemma wf_fs_ex: "wf_fs fs_ex"
  by (auto simp: wf_fs_def fs_ex_def split: if_splits)


lemma stage_dup:
  "\<exists>w2. stage_inputs env_ex ''/out/0123abcd'' files_dup \<lparr>fs = fs_ex, trace = []\<rparr> = (Inl (OSError ''link'' EEXIST), w2)"
  by (simp add: stage_inputs_def os_mkdir_def os_link_def log_def Let_def dict_get_def
      env_ex_def fs_ex_def files_dup_def resolve_ex basename_ex)

section \<open>Runs that return\<close>

lemma json_timeline_returns:
  assumes g: "get_input_files E pr (or_empty inp) = Inr files"
    and c: "create_output_file E outp ''Hayabusa_JSONL_timeline'' ''jsonl''
           ''openrelik:worker:hayabusa:file:jsonl'' = Inr ofile"
    and j: "os_path_join outp (uuid4_hex E) = Inr t"
    and st: "stage_inputs E t files \<lparr>fs = fs0, trace = []\<rparr> = (Inr u, w2)"
    and po: "popen E (hayabusa_command (path ofile) t) = Inr p"
    and al: "\<forall>i<n. alive_at p i" and ex: "\<not> alive_at p n"
    and nf: "rmtree_fault E t = None"
    and nd: "nodes (writes p (fs w2)) (resolve t) = None \<or> nodes (writes p (fs w2)) (resolve t) = Some Dir"
  shows "\<exists>w'. json_timeline E fs0 pr inp outp wid cfg =
            Some (collect_output [] ofile wid (hayabusa_command (path ofile) t), w')
          \<and> nodes (fs w') (resolve t) = None
          \<and> (\<forall>q. \<not> prefix (resolve t) q \<longrightarrow> nodes (fs w') q = nodes (writes p (fs w2)) q)
          \<and> data (fs w') = data (writes p (fs w2))"
proof -
  let ?cmd = "hayabusa_command (path ofile) t"
  let ?w4 = "\<lparr>fs = writes p (fs w2),
     trace = trace (log (EPopen ?cmd) w2) @ progress_rounds n @ [EPoll (Some (returncode p))]\<rparr>"
  from al ex have pl: "poll_loop p 0 (log (EPopen ?cmd) w2) = Some ?w4"
    using poll_loop_exit[of n p 0 "log (EPopen ?cmd) w2"] by (simp add: log_def)
  note eq = json_timeline_launched[OF g c j st po, of wid cfg]
  from nd show ?thesis
  proof
    assume a: "nodes (writes p (fs w2)) (resolve t) = None"
    then show ?thesis unfolding eq pl by (simp add: log_def)
  next
    assume a: "nodes (writes p (fs w2)) (resolve t) = Some Dir"
    then show ?thesis unfolding eq pl using nf
      by (simp add: log_def shutil_rmtree_def Let_def)
  qed
qed

lemma stage_ex_dir:
  "\<exists>w2. stage_inputs env_ex ''/out/0123abcd'' files_ex \<lparr>fs = fs_ex, trace = []\<rparr> = (Inr (), w2)
     \<and> nodes (fs w2) [''out'', ''0123abcd''] = Some Dir
     \<and> nodes (fs w2) [''out'', ''timeline.jsonl''] = None"
  by (simp add: stage_inputs_def os_mkdir_def os_link_def log_def Let_def dict_get_def
      env_ex_def fs_ex_def files_ex_def resolve_ex basename_ex)

lemma command_ex:
  "str_join '' '' (hayabusa_command ''/out/timeline.jsonl'' ''/out/0123abcd'') =
     ''/hayabusa/hayabusa json-timeline --ISO-8601 --UTC --no-wizard --quiet --JSONL-output --profile super-verbose --output /out/timeline.jsonl --directory /out/0123abcd''"
  by (simp add: hayabusa_command_def)

lemma stage_env_popen:
  "stage_inputs (E\<lparr>popen := f\<rparr>) t files w = stage_inputs E t files w"
proof -
  have ol: "os_link (E\<lparr>popen := f\<rparr>) s d w = os_link E s d w" for s d w
    by (simp add: os_link_def)
  have om: "os_mkdir (E\<lparr>popen := f\<rparr>) t w = os_mkdir E t w"
    by (simp add: os_mkdir_def)
  have lf: "link_files (E\<lparr>popen := f\<rparr>) t files w = link_files E t files w" for w
    by (induction files arbitrary: w)
       (simp_all add: ol Let_def split: option.splits prod.splits sum.splits)
  show ?thesis unfolding stage_inputs_def om lf by (rule refl)
qed

lemma run_ex:
  "\<exists>w'. json_timeline env_ex fs_ex None (Some files_ex) (Some ''/out'') (Some ''wf-1'') [] =
          Some (Inr r_ex, w')"
proof -
  from stage_ex_dir obtain w2 where
    st: "stage_inputs env_ex ''/out/0123abcd'' files_ex \<lparr>fs = fs_ex, trace = []\<rparr> = (Inr (), w2)"
    and d: "nodes (fs w2) [''out'', ''0123abcd''] = Some Dir" by blast
  have g: "get_input_files env_ex None (or_empty (Some files_ex)) = Inr files_ex"
    by (simp add: env_ex_def or_empty_def)
  have c: "create_output_file env_ex (Some ''/out'') ''Hayabusa_JSONL_timeline'' ''jsonl''
           ''openrelik:worker:hayabusa:file:jsonl'' = Inr out_ex"
    by (simp add: env_ex_def)
  have j: "os_path_join (Some ''/out'') (uuid4_hex env_ex) = Inr ''/out/0123abcd''"
    by (simp add: env_ex_def join_ex)
  have po: "popen env_ex (hayabusa_command (path out_ex) ''/out/0123abcd'') = Inr proc_ex"
    by (simp add: env_ex_def)
  have al: "\<forall>i<2. alive_at proc_ex i" and ex: "\<not> alive_at proc_ex 2"
    by (simp_all add: proc_ex_def)
  have nf: "rmtree_fault env_ex ''/out/0123abcd'' = None" by (simp add: env_ex_def)
  have nd: "nodes (writes proc_ex (fs w2)) (resolve ''/out/0123abcd'') = None
      \<or> nodes (writes proc_ex (fs w2)) (resolve ''/out/0123abcd'') = Some Dir"
    using d by (simp add: proc_ex_def resolve_ex)
  from json_timeline_returns[OF g c j st po al ex nf nd, of "Some ''wf-1''" "[]"]
  show ?thesis
    by (auto simp: collect_output_eq r_ex_def out_ex_def command_ex)
qed

lemma run_silent:
  "\<exists>w'. json_timeline env_silent fs_ex None (Some files_ex) (Some ''/out'') (Some ''wf-1'') [] =
          Some (Inr r_ex, w') \<and> nodes (fs w') (resolve ''/out/timeline.jsonl'') = None"
proof -
  from stage_ex_dir obtain w2 where
    st0: "stage_inputs env_ex ''/out/0123abcd'' files_ex \<lparr>fs = fs_ex, trace = []\<rparr> = (Inr (), w2)"
    and d: "nodes (fs w2) [''out'', ''0123abcd''] = Some Dir"
    and o: "nodes (fs w2) [''out'', ''timeline.jsonl''] = None" by blast
  have st: "stage_inputs env_silent ''/out/0123abcd'' files_ex \<lparr>fs = fs_ex, trace = []\<rparr> = (Inr (), w2)"
    using st0 by (simp add: env_silent_def stage_env_popen)
  have g: "get_input_files env_silent None (or_empty (Some files_ex)) = Inr files_ex"
    by (simp add: env_silent_def env_ex_def or_empty_def)
  have c: "create_output_file env_silent (Some ''/out'') ''Hayabusa_JSONL_timeline'' ''jsonl''
           ''openrelik:worker:hayabusa:file:jsonl'' = Inr out_ex"
    by (simp add: env_silent_def env_ex_def)
  have j: "os_path_join (Some ''/out'') (uuid4_hex env_silent) = Inr ''/out/0123abcd''"
    by (simp add: env_silent_def env_ex_def join_ex)
  have po: "popen env_silent (hayabusa_command (path out_ex) ''/out/0123abcd'') = Inr proc_silent"
    by (simp add: env_silent_def)
  have al: "\<forall>i<1. alive_at proc_silent i" and ex: "\<not> alive_at proc_silent 1"
    by (simp_all add: proc_silent_def)
  have nf: "rmtree_fault env_silent ''/out/0123abcd'' = None" by (simp add: env_silent_def env_ex_def)
  have nd: "nodes (writes proc_silent (fs w2)) (resolve ''/out/0123abcd'') = None
      \<or> nodes (writes proc_silent (fs w2)) (resolve ''/out/0123abcd'') = Some Dir"
    using d by (simp add: proc_silent_def resolve_ex)
  from json_timeline_returns[OF g c j st po al ex nf nd, of "Some ''wf-1''" "[]"]
  obtain w' where w': "json_timeline env_silent fs_ex None (Some files_ex) (Some ''/out'') (Some ''wf-1'') [] =
            Some (collect_output [] out_ex (Some ''wf-1'') (hayabusa_command (path out_ex) ''/out/0123abcd''), w')"
      "\<forall>q. \<not> prefix (resolve ''/out/0123abcd'') q \<longrightarrow> nodes (fs w') q = nodes (writes proc_silent (fs w2)) q"
    by blast
  have "\<not> prefix (resolve ''/out/0123abcd'') (resolve ''/out/timeline.jsonl'')"
    by (simp add: resolve_ex)
  with w'(2) o have "nodes (fs w') (resolve ''/out/timeline.jsonl'') = None"
    by (simp add: proc_silent_def resolve_ex)
  with w'(1) show ?thesis
    by (auto simp: collect_output_eq r_ex_def out_ex_def command_ex)
qed

section \<open>Errors and projections of the trace\<close>

lemma link_files_error:
  assumes "link_files E t files w = (Inl e, w')"
  shows "e = TypeError \<or> (\<exists>n. e = OSError ''link'' n)"
  using assms
proof (induction files arbitrary: w)
  case Nil
  then show ?case by simp
next
  case (Cons f files)
  show ?case
  proof (cases "dict_get f ''path''")
    case None
    with Cons.prems show ?thesis by simp
  next
    case (Some src)
    obtain r1 w1 where l: "os_link E src (t @ ''/'' @ basename src) w = (r1, w1)"
      by (cases "os_link E src (t @ ''/'' @ basename src) w") auto
    show ?thesis
    proof (cases r1)
      case (Inl e1)
      with l Some Cons.prems have "e = e1" by simp
      with l Inl os_link_Inl show ?thesis by blast
    next
      case (Inr u)
      with l Some Cons.prems have "link_files E t files w1 = (Inl e, w')" by simp
      then show ?thesis by (rule Cons.IH)
    qed
  qed
qed

lemma stage_inputs_error:
  assumes "stage_inputs E t files w = (Inl e, w')"
  shows "e = TypeError \<or> (\<exists>n. e = OSError ''mkdir'' n) \<or> (\<exists>n. e = OSError ''link'' n)"
proof (cases "os_mkdir E t w")
  case (Pair r1 w1)
  show ?thesis
  proof (cases r1)
    case (Inl e1)
    with Pair assms have "e = e1" by (simp add: stage_inputs_def)
    with Pair Inl os_mkdir_Inl show ?thesis by blast
  next
    case (Inr u)
    with Pair assms have "link_files E t files w1 = (Inl e, w')" by (simp add: stage_inputs_def)
    from link_files_error[OF this] show ?thesis by blast
  qed
qed

lemma filter_links:
  assumes "\<forall>x\<in>set es. is_link x"
  shows "filter is_popen es = []" and "filter is_loop_effect es = []"
proof -
  have "\<not> is_popen x \<and> \<not> is_loop_effect x" if "is_link x" for x
    using that by (cases x) simp_all
  with assms show "filter is_popen es = []" and "filter is_loop_effect es = []"
    by (auto simp: filter_empty_conv)
qed

lemma filter_progress_rounds:
  "filter is_popen (progress_rounds n) = []"
  "filter is_loop_effect (progress_rounds n) = progress_rounds n"
  by (induction n) (simp_all add: progress_rounds_Suc progress_rounds_0)


lemma json_timeline_None:
  assumes "json_timeline E fs0 pr inp outp wid cfg = None"
  shows "\<exists>files ofile t w2 p.
      get_input_files E pr (or_empty inp) = Inr files
    \<and> create_output_file E outp ''Hayabusa_JSONL_timeline'' ''jsonl''
           ''openrelik:worker:hayabusa:file:jsonl'' = Inr ofile
    \<and> os_path_join outp (uuid4_hex E) = Inr t
    \<and> stage_inputs E t files \<lparr>fs = fs0, trace = []\<rparr> = (Inr (), w2)
    \<and> popen E (hayabusa_command (path ofile) t) = Inr p
    \<and> (\<forall>k. alive_at p k)"
proof (cases "get_input_files E pr (or_empty inp)")
  case (Inl m)
  with assms show ?thesis by (simp add: json_timeline_def)
next
  case g: (Inr files)
  show ?thesis
  proof (cases "create_output_file E outp ''Hayabusa_JSONL_timeline'' ''jsonl''
           ''openrelik:worker:hayabusa:file:jsonl''")
    case (Inl m)
    with assms g show ?thesis by (simp add: json_timeline_def)
  next
    case c: (Inr ofile)
    show ?thesis
    proof (cases "os_path_join outp (uuid4_hex E)")
      case (Inl e)
      with assms g c show ?thesis by (simp add: json_timeline_def)
    next
      case j: (Inr t)
      obtain r2 w2 where st: "stage_inputs E t files \<lparr>fs = fs0, trace = []\<rparr> = (r2, w2)"
        by (cases "stage_inputs E t files \<lparr>fs = fs0, trace = []\<rparr>") auto
      show ?thesis
      proof (cases r2)
        case (Inl e)
        with st json_timeline_stage_fail[OF g c j, of fs0 e w2 wid cfg] assms show ?thesis by simp
      next
        case (Inr u)
        with st have st': "stage_inputs E t files \<lparr>fs = fs0, trace = []\<rparr> = (Inr (), w2)" by simp
        show ?thesis
        proof (cases "popen E (hayabusa_command (path ofile) t)")
          case (Inl n)
          from json_timeline_popen_fail[OF g c j st' Inl, of wid cfg] assms show ?thesis by simp
        next
          case po: (Inr p)
          have "poll_loop p 0 (log (EPopen (hayabusa_command (path ofile) t)) w2) = None"
            using assms unfolding json_timeline_launched[OF g c j st' po, of wid cfg]
            by (auto split: option.splits prod.splits sum.splits if_splits)
          then have "\<forall>k. alive_at p k" by (simp add: poll_loop_None_iff)
          with g c j st' po show ?thesis by blast
        qed
      qed
    qed
  qed
qed

lemma json_timeline_popens:
  assumes run: "json_timeline E fs0 pr inp outp wid cfg = Some (res, w')"
    and c: "create_output_file E outp ''Hayabusa_JSONL_timeline'' ''jsonl''
           ''openrelik:worker:hayabusa:file:jsonl'' = Inr ofile"
    and j: "os_path_join outp (uuid4_hex E) = Inr t"
  shows "(filter is_popen (trace w') = [] \<and> (\<exists>e. res = Inl e))
       \<or> filter is_popen (trace w') = [EPopen (hayabusa_command (path ofile) t)]"
  using run
proof (cases rule: json_timeline_cases)
  case (helper m)
  then show ?thesis by simp
next
  case join
  then show ?thesis by simp
next
  case (stage files ofile' t' e)
  from stage_inputs_Inl[OF stage(4)] obtain es where
    "trace w' = EMkdir t' # es" "\<forall>x\<in>set es. is_link x" by auto
  with filter_links(1)[of es] stage(5) show ?thesis by simp
next
  case (launch files ofile' t' w2 n)
  from stage_inputs_Inr[OF launch(4)] obtain es where
    "trace w2 = EMkdir t' # es" "\<forall>x\<in>set es. is_link x" by auto
  with filter_links(1)[of es] launch c j show ?thesis by (simp add: log_def)
next
  case (exited files ofile' t' w2 p n ex)
  from stage_inputs_Inr[OF exited(4)] obtain es where
    es: "trace w2 = EMkdir t' # es" "\<forall>x\<in>set es. is_link x" by auto
  have "filter is_popen (trace w') = [EPopen (hayabusa_command (path ofile') t')]"
    unfolding exited(8) es(1) using filter_links(1)[OF es(2)]
    by (simp add: filter_progress_rounds)
  with exited(2,3) c j show ?thesis by simp
qed

lemma json_timeline_loop_effects:
  assumes run: "json_timeline E fs0 pr inp outp wid cfg = Some (res, w')"
  shows "(filter is_loop_effect (trace w') = [] \<and> (\<exists>e. res = Inl e))
     \<or> (\<exists>ofile t q n.
          create_output_file E outp ''Hayabusa_JSONL_timeline'' ''jsonl''
            ''openrelik:worker:hayabusa:file:jsonl'' = Inr ofile
        \<and> os_path_join outp (uuid4_hex E) = Inr t
        \<and> popen E (hayabusa_command (path ofile) t) = Inr q
        \<and> (\<forall>i<n. alive_at q i) \<and> \<not> alive_at q n
        \<and> filter is_loop_effect (trace w') = progress_rounds n @ [EPoll (Some (returncode q))])"
  using run
proof (cases rule: json_timeline_cases)
  case (helper m)
  then show ?thesis by simp
next
  case join
  then show ?thesis by simp
next
  case (stage files ofile' t' e)
  from stage_inputs_Inl[OF stage(4)] obtain es where
    "trace w' = EMkdir t' # es" "\<forall>x\<in>set es. is_link x" by auto
  with filter_links(2)[of es] stage(5) show ?thesis by simp
next
  case (launch files ofile' t' w2 n)
  from stage_inputs_Inr[OF launch(4)] obtain es where
    "trace w2 = EMkdir t' # es" "\<forall>x\<in>set es. is_link x" by auto
  with filter_links(2)[of es] launch show ?thesis by (simp add: log_def)
next
  case (exited files ofile' t' w2 p n ex)
  from stage_inputs_Inr[OF exited(4)] obtain es where
    es: "trace w2 = EMkdir t' # es" "\<forall>x\<in>set es. is_link x" by auto
  have "filter is_loop_effect (trace w') = progress_rounds n @ [EPoll (Some (returncode p))]"
    unfolding exited(8) es(1) using filter_links(2)[OF es(2)]
    by (simp add: filter_progress_rounds)
  with exited(2,3,5,6,7) show ?thesis by blast
qed

lemma command_string:
  "str_join '' '' (hayabusa_command a b) =
     ''/hayabusa/hayabusa json-timeline --ISO-8601 --UTC --no-wizard --quiet --JSONL-output --profile super-verbose --output ''
       @ a @ '' --directory '' @ b"
  by (simp add: hayabusa_command_def)

lemma fresh_dir_empty:
  assumes "wf_fs f" and "nodes f d = None"
  shows "nodes f (d @ [n]) = None"
proof (rule ccontr)
  assume "nodes f (d @ [n]) \<noteq> None"
  with assms(1) have "nodes f (butlast (d @ [n])) = Some Dir"
    unfolding wf_fs_def by blast
  with assms(2) show False by simp
qed

lemma stage_inputs_links:
  assumes st: "stage_inputs E t files \<lparr>fs = fs0, trace = []\<rparr> = (Inr u, w2)"
  shows "\<exists>srcs. map (\<lambda>f. dict_get f ''path'') files = map Some srcs
      \<and> distinct (map basename srcs)
      \<and> nodes fs0 (resolve t) = None
      \<and> nodes (fs w2) (resolve t) = Some Dir
      \<and> (\<forall>s\<in>set srcs. basename s \<noteq> [] \<and> (\<exists>i. nodes (fs w2) (resolve s) = Some (File i)
             \<and> nodes (fs w2) (resolve t @ [basename s]) = Some (File i)))
      \<and> (\<forall>q. q \<noteq> resolve t \<longrightarrow> q \<notin> (\<lambda>s. resolve t @ [basename s]) ` set srcs
             \<longrightarrow> nodes (fs w2) q = nodes fs0 q)
      \<and> data (fs w2) = data fs0"
proof -
  from stage_inputs_Inr[OF st] obtain w1 where
    mk: "os_mkdir E t \<lparr>fs = fs0, trace = []\<rparr> = (Inr (), w1)"
    and lf: "link_files E t files w1 = (Inr (), w2)" by blast
  from os_mkdir_Inr[OF mk] have
    free: "nodes fs0 (resolve t) = None"
    and f1: "fs w1 = fs0\<lparr>nodes := (nodes fs0)(resolve t \<mapsto> Dir)\<rparr>" by simp_all
  then have n1: "nodes (fs w1) q = (if q = resolve t then Some Dir else nodes fs0 q)" for q
    by simp
  from link_files_Inr[OF lf] obtain srcs where
    p: "map (\<lambda>f. dict_get f ''path'') files = map Some srcs"
    and d: "distinct (map (\<lambda>s. resolve (t @ ''/'' @ basename s)) srcs)"
    and l: "\<forall>s\<in>set srcs. \<exists>i. nodes (fs w2) (resolve s) = Some (File i)
                  \<and> nodes (fs w2) (resolve (t @ ''/'' @ basename s)) = Some (File i)
                  \<and> nodes (fs w1) (resolve (t @ ''/'' @ basename s)) = None"
    and o: "\<forall>q. q \<notin> (\<lambda>s. resolve (t @ ''/'' @ basename s)) ` set srcs \<longrightarrow> nodes (fs w2) q = nodes (fs w1) q"
    and dt: "data (fs w2) = data (fs w1)" by blast
  have bn: "basename s \<noteq> []" if "s \<in> set srcs" for s
  proof
    assume "basename s = []"
    then have "resolve (t @ ''/'' @ basename s) = resolve t" using resolve_child[of t s] by simp
    moreover from l that have "nodes (fs w1) (resolve (t @ ''/'' @ basename s)) = None" by blast
    ultimately show False using n1 by simp
  qed
  then have dst: "resolve (t @ ''/'' @ basename s) = resolve t @ [basename s]" if "s \<in> set srcs" for s
    using that resolve_child[of t s] by simp
  have img: "(\<lambda>s. resolve (t @ ''/'' @ basename s)) ` set srcs = (\<lambda>s. resolve t @ [basename s]) ` set srcs"
    using dst by (auto simp: image_iff)
  have m: "map (\<lambda>s. resolve (t @ ''/'' @ basename s)) srcs = map (\<lambda>b. resolve t @ [b]) (map basename srcs)"
    using dst by simp
  from d[unfolded m] have db: "distinct (map basename srcs)"
    by (rule distinct_map[THEN iffD1, THEN conjunct1])
  have tn: "resolve t \<notin> (\<lambda>s. resolve t @ [basename s]) ` set srcs" by auto
  have "nodes (fs w2) (resolve t) = nodes (fs w1) (resolve t)" using o img tn by simp
  then have dir: "nodes (fs w2) (resolve t) = Some Dir" using n1 by simp
  have a: "\<forall>s\<in>set srcs. basename s \<noteq> [] \<and> (\<exists>i. nodes (fs w2) (resolve s) = Some (File i)
             \<and> nodes (fs w2) (resolve t @ [basename s]) = Some (File i))"
    using l bn dst by fastforce
  have b: "\<forall>q. q \<noteq> resolve t \<longrightarrow> q \<notin> (\<lambda>s. resolve t @ [basename s]) ` set srcs
             \<longrightarrow> nodes (fs w2) q = nodes fs0 q"
    using o img n1 by simp
  have "data (fs w2) = data fs0" using dt f1 by simp
  with p db free dir a b show ?thesis by blast
qed

lemma with_returncode_fields:
  "uuid4_hex (with_returncode rc E) = uuid4_hex E"
  "get_input_files (with_returncode rc E) = get_input_files E"
  "create_output_file (with_returncode rc E) = create_output_file E"
  "rmtree_fault (with_returncode rc E) = rmtree_fault E"
  "popen (with_returncode rc E) argv =
     (case popen E argv of Inl e \<Rightarrow> Inl e | Inr p \<Rightarrow> Inr (p\<lparr>returncode := rc\<rparr>))"
  "stage_inputs (with_returncode rc E) t files w = stage_inputs E t files w"
  by (simp_all add: with_returncode_def stage_env_popen)

lemma cleanup_fs_only:
  assumes "fs w = fs v" and "rmtree_fault E' = rmtree_fault E"
  shows "map_option (\<lambda>(res, x). (res, fs x))
      (case (if nodes (fs w) (resolve t) \<noteq> None then shutil_rmtree E' t (log (EExists t) w)
             else (Inr (), log (EExists t) w)) of
         (Inl e, w6) \<Rightarrow> Some (Inl e, w6)
       | (Inr u, w6) \<Rightarrow> Some (r, w6))
    = map_option (\<lambda>(res, x). (res, fs x))
      (case (if nodes (fs v) (resolve t) \<noteq> None then shutil_rmtree E t (log (EExists t) v)
             else (Inr (), log (EExists t) v)) of
         (Inl e, w6) \<Rightarrow> Some (Inl e, w6)
       | (Inr u, w6) \<Rightarrow> Some (r, w6))"
  using assms
  by (auto simp: shutil_rmtree_def log_def Let_def cong: if_cong split: option.splits node.splits)

lemma poll_loop_returncode:
  "map_option fs (poll_loop (p\<lparr>returncode := rc\<rparr>) k w) = map_option fs (poll_loop p k w)"
proof (cases "\<forall>n. alive_at p (k + n)")
  case True
  then have "poll_loop p k w = None" "poll_loop (p\<lparr>returncode := rc\<rparr>) k w = None"
    by (simp_all add: poll_loop_None_iff)
  then show ?thesis by simp
next
  case False
  then have "poll_loop p k w \<noteq> None" by (simp add: poll_loop_None_iff)
  then obtain w4 where w4: "poll_loop p k w = Some w4" by auto
  from poll_loop_SomeD[OF w4] obtain n where n: "\<forall>i<n. alive_at p (k + i)" "\<not> alive_at p (k + n)"
    and e: "fs w4 = writes p (fs w)" by auto
  from n have "\<forall>i<n. alive_at (p\<lparr>returncode := rc\<rparr>) (k + i)" "\<not> alive_at (p\<lparr>returncode := rc\<rparr>) (k + n)"
    by simp_all
  from poll_loop_exit[OF this, of w] w4 e show ?thesis by simp
qed

lemma link_files_append:
  "link_files E t (xs @ ys) w =
     (case link_files E t xs w of
        (Inl e, w') \<Rightarrow> (Inl e, w')
      | (Inr u, w') \<Rightarrow> link_files E t ys w')"
  by (induction xs arbitrary: w)
     (simp_all add: Let_def split: option.splits prod.splits sum.splits)

lemma link_files_origin:
  assumes "link_files E t files w = (Inl e, w')"
  shows "e = TypeError \<or> (\<exists>s d v. os_link E s d v = (Inl e, w'))"
  using assms
proof (induction files arbitrary: w)
  case Nil
  then show ?case by simp
next
  case (Cons f files)
  show ?case
  proof (cases "dict_get f ''path''")
    case None
    with Cons.prems show ?thesis by simp
  next
    case (Some src)
    obtain r1 w1 where l: "os_link E src (t @ ''/'' @ basename src) w = (r1, w1)"
      by (cases "os_link E src (t @ ''/'' @ basename src) w") auto
    show ?thesis
    proof (cases r1)
      case (Inl e1)
      with l Some Cons.prems have "e = e1" "w' = w1" by simp_all
      with l Inl show ?thesis by blast
    next
      case (Inr u)
      with l Some Cons.prems have "link_files E t files w1 = (Inl e, w')" by simp
      then show ?thesis by (rule Cons.IH)
    qed
  qed
qed

lemma link_files_chain:
  assumes "k < length files"
    and "\<forall>i\<le>k. dict_get (files ! i) ''path'' = Some (src i)"
    and "\<forall>i<k. os_link E (src i) (t @ ''/'' @ basename (src i)) (ws i) = (Inr (), ws (Suc i))"
    and "os_link E (src k) (t @ ''/'' @ basename (src k)) (ws k) = (Inl e, we)"
  shows "link_files E t files (ws 0) = (Inl e, we)
     \<and> trace we = trace (ws 0) @ link_effects t (map src [0..<Suc k])"
  using assms
proof (induction k arbitrary: files src ws)
  case 0
  then obtain f rest where fs: "files = f # rest" by (cases files) auto
  with 0 have p: "dict_get f ''path'' = Some (src 0)" by simp
  from os_link_Inl[OF "0.prems"(4)] have "trace we = trace (ws 0) @ link_effects t (map src [0..<Suc 0])"
    by (simp add: link_effects_def)
  with fs p "0.prems"(4) show ?case by simp
next
  case (Suc k)
  then obtain f rest where fs: "files = f # rest" by (cases files) auto
  with Suc.prems have p: "dict_get f ''path'' = Some (src 0)" by auto
  from Suc.prems(3) have l0: "os_link E (src 0) (t @ ''/'' @ basename (src 0)) (ws 0) = (Inr (), ws (Suc 0))"
    by simp
  have a: "k < length rest" using Suc.prems(1) fs by simp
  have b: "\<forall>i\<le>k. dict_get (rest ! i) ''path'' = Some (src (Suc i))"
    using Suc.prems(2) fs by auto
  have c: "\<forall>i<k. os_link E (src (Suc i)) (t @ ''/'' @ basename (src (Suc i))) (ws (Suc i))
              = (Inr (), ws (Suc (Suc i)))"
    using Suc.prems(3) by auto
  from Suc.IH[of rest "\<lambda>i. src (Suc i)" "\<lambda>i. ws (Suc i)", OF a b c Suc.prems(4)]
  have ih: "link_files E t rest (ws (Suc 0)) = (Inl e, we)"
    "trace we = trace (ws (Suc 0)) @ link_effects t (map (\<lambda>i. src (Suc i)) [0..<Suc k])"
    by simp_all
  from os_link_Inr[OF l0] have t1: "trace (ws (Suc 0)) = trace (ws 0) @ [ELink (src 0) (t @ ''/'' @ basename (src 0))]"
    by blast
  have m: "map src [0..<Suc (Suc k)] = src 0 # map (\<lambda>i. src (Suc i)) [0..<Suc k]"
    by (rule map_upt_Suc)
  have "trace we = trace (ws 0) @ link_effects t (map src [0..<Suc (Suc k)])"
    unfolding m using ih(2) t1 by (simp add: link_effects_def)
  moreover have "link_files E t files (ws 0) = (Inl e, we)"
    using fs p l0 ih(1) by simp
  ultimately show ?case by blast
qed

lemma filter_popen_link_effects: "filter is_popen (link_effects t srcs) = []"
  by (induction srcs) (simp_all add: link_effects_def)

lemma mkdir_nowhere:
  "\<exists>w. os_mkdir env_ex ''/nowhere/0123abcd'' \<lparr>fs = fs_ex, trace = []\<rparr> =
         (Inl (OSError ''mkdir'' ENOENT), w)"
  by (simp add: os_mkdir_def log_def Let_def env_ex_def fs_ex_def resolve_def)

lemma links_xdev:
  "\<exists>w1 w1' we.
       os_mkdir env_xdev ''/out/0123abcd'' \<lparr>fs = fs_ex, trace = []\<rparr> = (Inr (), w1)
     \<and> os_link env_xdev ''/in/a.evtx'' ''/out/0123abcd/a.evtx'' w1 = (Inr (), w1')
     \<and> os_link env_xdev ''/in/b.evtx'' ''/out/0123abcd/b.evtx'' w1' =
         (Inl (OSError ''link'' EXDEV), we)"
  by (simp add: os_mkdir_def os_link_def log_def Let_def env_xdev_def env_ex_def fs_ex_def
      resolve_ex)

section \<open>The claims\<close>

text \<open>
  C1, evaluated at a run the claim forbids. The tool exits with status 1 after one
  poll and writes nothing; there is no file at the output path when the function is
  done, and the function returns a task result all the same: the test of line 99 looks
  at a list that line 96 has just extended, never at the file.
\<close>

theorem missing_output_returns_result:
  "(case json_timeline env_silent fs_ex None (Some files_ex) (Some ''/out'') (Some ''wf-1'') [] of
      None \<Rightarrow> False
    | Some (res, w) \<Rightarrow> res = Inr r_ex \<and> absent_or_empty (fs w) (path out_ex))"
proof -
  from run_silent obtain w' where
    "json_timeline env_silent fs_ex None (Some files_ex) (Some ''/out'') (Some ''wf-1'') [] =
          Some (Inr r_ex, w')" "nodes (fs w') (resolve ''/out/timeline.jsonl'') = None" by blast
  then show ?thesis by (simp add: absent_or_empty_def out_ex_def)
qed

text \<open>
  C2, as amended. Whenever \<open>json_timeline\<close> returns a task result, the staging directory
  does not exist in the filesystem it leaves behind. (The claim as stated also promises
  this on the paths that raise; the run after this theorem's witness shows a launch that
  fails and leaves the directory in place.)
\<close>

theorem staging_dir_removed_on_return:
  assumes "os_path_join outp (uuid4_hex E) = Inr t"
    and "json_timeline E fs0 pr inp outp wid cfg = Some (Inr r, w')"
  shows "\<not> fst (os_path_exists t w')"
  using assms(2)
proof (cases rule: json_timeline_cases)
  case (exited files ofile t' w2 p n ex)
  with assms(1) have "t' = t" by simp
  with exited(9) show ?thesis by (auto simp: os_path_exists_def)
qed simp_all

theorem staging_dir_removed_on_return_witness:
  "\<exists>w'. os_path_join (Some ''/out'') (uuid4_hex env_ex) = Inr ''/out/0123abcd''
     \<and> json_timeline env_ex fs_ex None (Some files_ex) (Some ''/out'') (Some ''wf-1'') [] =
          Some (Inr r_ex, w')
     \<and> \<not> fst (os_path_exists ''/out/0123abcd'' w')"
proof -
  have j: "os_path_join (Some ''/out'') (uuid4_hex env_ex) = Inr ''/out/0123abcd''"
    by (simp add: env_ex_def join_ex)
  from run_ex obtain w' where
    r: "json_timeline env_ex fs_ex None (Some files_ex) (Some ''/out'') (Some ''wf-1'') [] =
          Some (Inr r_ex, w')" by blast
  from staging_dir_removed_on_return[OF j r] j r show ?thesis by blast
qed

text \<open>
  The run against C2 as stated: staging succeeds, \<open>Popen\<close> raises because the binary
  is missing, the exception leaves the function, and the staging directory is still there.
\<close>

theorem staging_dir_left_after_failed_launch:
  "os_path_join (Some ''/out'') (uuid4_hex env_nolaunch) = Inr ''/out/0123abcd''
   \<and> fst (stage_inputs env_nolaunch ''/out/0123abcd'' files_ex \<lparr>fs = fs_ex, trace = []\<rparr>) = Inr ()
   \<and> (case json_timeline env_nolaunch fs_ex None (Some files_ex) (Some ''/out'') (Some ''wf-1'') [] of
        None \<Rightarrow> False
      | Some (res, w) \<Rightarrow> res = Inl (OSError ''Popen'' ENOENT) \<and> fst (os_path_exists ''/out/0123abcd'' w))"
proof -
  from stage_ex_dir obtain w2 where
    st0: "stage_inputs env_ex ''/out/0123abcd'' files_ex \<lparr>fs = fs_ex, trace = []\<rparr> = (Inr (), w2)"
    and d: "nodes (fs w2) [''out'', ''0123abcd''] = Some Dir" by blast
  have st: "stage_inputs env_nolaunch ''/out/0123abcd'' files_ex \<lparr>fs = fs_ex, trace = []\<rparr> = (Inr (), w2)"
    using st0 by (simp add: env_nolaunch_def stage_env_popen)
  have g: "get_input_files env_nolaunch None (or_empty (Some files_ex)) = Inr files_ex"
    by (simp add: env_nolaunch_def env_ex_def or_empty_def)
  have c: "create_output_file env_nolaunch (Some ''/out'') ''Hayabusa_JSONL_timeline'' ''jsonl''
           ''openrelik:worker:hayabusa:file:jsonl'' = Inr out_ex"
    by (simp add: env_nolaunch_def env_ex_def)
  have j: "os_path_join (Some ''/out'') (uuid4_hex env_nolaunch) = Inr ''/out/0123abcd''"
    by (simp add: env_nolaunch_def env_ex_def join_ex)
  have po: "popen env_nolaunch (hayabusa_command (path out_ex) ''/out/0123abcd'') = Inl ENOENT"
    by (simp add: env_nolaunch_def)
  from json_timeline_popen_fail[OF g c j st po, of "Some ''wf-1''" "[]"] d j st
  show ?thesis by (simp add: os_path_exists_def log_def resolve_ex)
qed



text \<open>
  C4. The argument vector given to \<open>Popen\<close> is a function of the path of the output
  file and of the path of the staging directory alone: in a run that returns or raises,
  every \<open>Popen\<close> of the trace has the thirteen tokens below, in this order, and joined with
  single spaces they are the fixed command line; in a run that never returns the process
  was launched with the same thirteen tokens.
\<close>

theorem command_line_fixed:
  assumes c: "create_output_file E outp ''Hayabusa_JSONL_timeline'' ''jsonl''
           ''openrelik:worker:hayabusa:file:jsonl'' = Inr ofile"
    and j: "os_path_join outp (uuid4_hex E) = Inr t"
  shows "case json_timeline E fs0 pr inp outp wid cfg of
      None \<Rightarrow>
        (\<exists>p. popen E [''/hayabusa/hayabusa'', ''json-timeline'', ''--ISO-8601'', ''--UTC'',
                 ''--no-wizard'', ''--quiet'', ''--JSONL-output'', ''--profile'', ''super-verbose'',
                 ''--output'', path ofile, ''--directory'', t] = Inr p)
    | Some (res, w') \<Rightarrow>
        (\<forall>argv. EPopen argv \<in> set (trace w') \<longrightarrow>
           argv = [''/hayabusa/hayabusa'', ''json-timeline'', ''--ISO-8601'', ''--UTC'',
                 ''--no-wizard'', ''--quiet'', ''--JSONL-output'', ''--profile'', ''super-verbose'',
                 ''--output'', path ofile, ''--directory'', t]
         \<and> str_join '' '' argv =
             ''/hayabusa/hayabusa json-timeline --ISO-8601 --UTC --no-wizard --quiet --JSONL-output --profile super-verbose --output ''
               @ path ofile @ '' --directory '' @ t)"
proof (cases "json_timeline E fs0 pr inp outp wid cfg")
  case None
  from json_timeline_None[OF None] c j show ?thesis
    unfolding None by (auto simp: hayabusa_command_def)
next
  case (Some a)
  obtain res w' where a: "a = (res, w')" by (cases a)
  have k: "argv = hayabusa_command (path ofile) t" if "EPopen argv \<in> set (trace w')" for argv
  proof -
    from that have mem: "EPopen argv \<in> set (filter is_popen (trace w'))" by simp
    from json_timeline_popens[OF Some[unfolded a] c j] show ?thesis
    proof (elim disjE conjE)
      assume e: "filter is_popen (trace w') = []"
      from mem[unfolded e] show ?thesis by simp
    next
      assume e: "filter is_popen (trace w') = [EPopen (hayabusa_command (path ofile) t)]"
      from mem[unfolded e] show ?thesis by simp
    qed
  qed
  have "argv = [''/hayabusa/hayabusa'', ''json-timeline'', ''--ISO-8601'', ''--UTC'',
                 ''--no-wizard'', ''--quiet'', ''--JSONL-output'', ''--profile'', ''super-verbose'',
                 ''--output'', path ofile, ''--directory'', t]
         \<and> str_join '' '' argv =
             ''/hayabusa/hayabusa json-timeline --ISO-8601 --UTC --no-wizard --quiet --JSONL-output --profile super-verbose --output ''
               @ path ofile @ '' --directory '' @ t"
    if "EPopen argv \<in> set (trace w')" for argv
    unfolding k[OF that] command_string by (simp add: hayabusa_command_def)
  then show ?thesis unfolding Some a by simp
qed

theorem command_line_fixed_witness:
  "create_output_file env_ex (Some ''/out'') ''Hayabusa_JSONL_timeline'' ''jsonl''
           ''openrelik:worker:hayabusa:file:jsonl'' = Inr out_ex
   \<and> os_path_join (Some ''/out'') (uuid4_hex env_ex) = Inr ''/out/0123abcd''
   \<and> (\<exists>w'. json_timeline env_ex fs_ex None (Some files_ex) (Some ''/out'') (Some ''wf-1'') [] =
          Some (Inr r_ex, w')
        \<and> filter is_popen (trace w') =
            [EPopen [''/hayabusa/hayabusa'', ''json-timeline'', ''--ISO-8601'', ''--UTC'',
                 ''--no-wizard'', ''--quiet'', ''--JSONL-output'', ''--profile'', ''super-verbose'',
                 ''--output'', ''/out/timeline.jsonl'', ''--directory'', ''/out/0123abcd'']])"
proof -
  have c: "create_output_file env_ex (Some ''/out'') ''Hayabusa_JSONL_timeline'' ''jsonl''
           ''openrelik:worker:hayabusa:file:jsonl'' = Inr out_ex"
    by (simp add: env_ex_def)
  have j: "os_path_join (Some ''/out'') (uuid4_hex env_ex) = Inr ''/out/0123abcd''"
    by (simp add: env_ex_def join_ex)
  from run_ex obtain w' where
    r: "json_timeline env_ex fs_ex None (Some files_ex) (Some ''/out'') (Some ''wf-1'') [] =
          Some (Inr r_ex, w')" by blast
  from json_timeline_popens[OF r c j] obtain argv where f: "filter is_popen (trace w') = [EPopen argv]"
    by auto
  then have "EPopen argv \<in> set (filter is_popen (trace w'))" by simp
  then have "EPopen argv \<in> set (trace w')" by simp
  with command_line_fixed[OF c j, of fs_ex None "Some files_ex" "Some ''wf-1''" "[]"] r
  have "argv = [''/hayabusa/hayabusa'', ''json-timeline'', ''--ISO-8601'', ''--UTC'',
                 ''--no-wizard'', ''--quiet'', ''--JSONL-output'', ''--profile'', ''super-verbose'',
                 ''--output'', ''/out/timeline.jsonl'', ''--directory'', ''/out/0123abcd'']"
    by (simp add: out_ex_def)
  with f c j r show ?thesis by blast
qed

text \<open>
  C5. Every run that returns a result returns exactly one output descriptor, the
  \<open>to_dict()\<close> of the output file allocated by \<open>create_output_file\<close>; the workflow
  identifier of the caller, unchanged; and as command the argument vector joined with
  single spaces, where that vector is the one and only vector given to \<open>Popen\<close> in the
  run.
\<close>

theorem task_result_contents:
  assumes "json_timeline E fs0 pr inp outp wid cfg = Some (Inr r, w')"
  shows "\<exists>ofile t.
      create_output_file E outp ''Hayabusa_JSONL_timeline'' ''jsonl''
         ''openrelik:worker:hayabusa:file:jsonl'' = Inr ofile
    \<and> os_path_join outp (uuid4_hex E) = Inr t
    \<and> output_files r = [to_dict ofile]
    \<and> workflow_id r = wid
    \<and> command r = str_join '' '' (hayabusa_command (path ofile) t)
    \<and> filter is_popen (trace w') = [EPopen (hayabusa_command (path ofile) t)]"
  using assms
proof (cases rule: json_timeline_cases)
  case (exited files ofile t w2 p n ex)
  from stage_inputs_Inr[OF exited(4)] obtain es where
    es: "trace w2 = EMkdir t # es" "\<forall>x\<in>set es. is_link x" by auto
  have "filter is_popen (trace w') = [EPopen (hayabusa_command (path ofile) t)]"
    unfolding exited(8) es(1) using filter_links(1)[OF es(2)]
    by (simp add: filter_progress_rounds)
  moreover from exited(9) have "r = \<lparr>output_files = [to_dict ofile], workflow_id = wid,
      command = str_join '' '' (hayabusa_command (path ofile) t)\<rparr>"
    by (auto simp: collect_output_eq)
  ultimately show ?thesis using exited(2,3) by auto
qed simp_all

theorem task_result_contents_witness:
  "\<exists>w'. json_timeline env_ex fs_ex None (Some files_ex) (Some ''/out'') (Some ''wf-1'') [] =
          Some (Inr r_ex, w')
     \<and> output_files r_ex = [to_dict out_ex]
     \<and> workflow_id r_ex = Some ''wf-1''
     \<and> command r_ex = str_join '' '' (hayabusa_command (path out_ex) ''/out/0123abcd'')
     \<and> filter is_popen (trace w') = [EPopen (hayabusa_command (path out_ex) ''/out/0123abcd'')]"
proof -
  from run_ex obtain w' where
    r: "json_timeline env_ex fs_ex None (Some files_ex) (Some ''/out'') (Some ''wf-1'') [] =
          Some (Inr r_ex, w')" by blast
  from task_result_contents[OF r] r show ?thesis
    by (auto simp: env_ex_def join_ex)
qed

text \<open>
  C6. Replace the exit status of the launched process by any other and leave everything
  else as it is: the function returns in the one run exactly when it returns in the
  other, with the same value or exception, and leaves the same filesystem. The status is
  only compared with \<open>None\<close> by the loop and then dropped.
\<close>

theorem result_independent_of_exit_status:
  "map_option (\<lambda>(res, w). (res, fs w))
       (json_timeline (with_returncode rc E) fs0 pr inp outp wid cfg)
   = map_option (\<lambda>(res, w). (res, fs w)) (json_timeline E fs0 pr inp outp wid cfg)"
proof (cases "get_input_files E pr (or_empty inp)")
  case (Inl m)
  then show ?thesis by (simp add: json_timeline_def with_returncode_fields)
next
  case g: (Inr files)
  show ?thesis
  proof (cases "create_output_file E outp ''Hayabusa_JSONL_timeline'' ''jsonl''
           ''openrelik:worker:hayabusa:file:jsonl''")
    case (Inl m)
    with g show ?thesis by (simp add: json_timeline_def with_returncode_fields)
  next
    case c: (Inr ofile)
    show ?thesis
    proof (cases "os_path_join outp (uuid4_hex E)")
      case (Inl e)
      with g c show ?thesis by (simp add: json_timeline_def with_returncode_fields)
    next
      case j: (Inr t)
      let ?E = "with_returncode rc E"
      let ?cmd = "hayabusa_command (path ofile) t"
      have g': "get_input_files ?E pr (or_empty inp) = Inr files"
        and c': "create_output_file ?E outp ''Hayabusa_JSONL_timeline'' ''jsonl''
           ''openrelik:worker:hayabusa:file:jsonl'' = Inr ofile"
        and j': "os_path_join outp (uuid4_hex ?E) = Inr t"
        using g c j by (simp_all add: with_returncode_fields)
      obtain r2 w2 where st: "stage_inputs E t files \<lparr>fs = fs0, trace = []\<rparr> = (r2, w2)"
        by (cases "stage_inputs E t files \<lparr>fs = fs0, trace = []\<rparr>") auto
      show ?thesis
      proof (cases r2)
        case (Inl e)
        with st have s1: "stage_inputs E t files \<lparr>fs = fs0, trace = []\<rparr> = (Inl e, w2)" by simp
        then have s2: "stage_inputs ?E t files \<lparr>fs = fs0, trace = []\<rparr> = (Inl e, w2)"
          by (simp add: with_returncode_fields)
        show ?thesis
          unfolding json_timeline_stage_fail[OF g c j s1] json_timeline_stage_fail[OF g' c' j' s2]
          by (rule refl)
      next
        case (Inr u)
        with st have s1: "stage_inputs E t files \<lparr>fs = fs0, trace = []\<rparr> = (Inr u, w2)" by simp
        then have s2: "stage_inputs ?E t files \<lparr>fs = fs0, trace = []\<rparr> = (Inr u, w2)"
          by (simp add: with_returncode_fields)
        show ?thesis
        proof (cases "popen E ?cmd")
          case (Inl n)
          then have p2: "popen ?E ?cmd = Inl n" by (simp add: with_returncode_fields)
          show ?thesis
            unfolding json_timeline_popen_fail[OF g c j s1 Inl]
              json_timeline_popen_fail[OF g' c' j' s2 p2]
            by (rule refl)
        next
          case po: (Inr p)
          then have p2: "popen ?E ?cmd = Inr (p\<lparr>returncode := rc\<rparr>)"
            by (simp add: with_returncode_fields)
          let ?w3 = "log (EPopen ?cmd) w2"
          note l1 = json_timeline_launched[OF g c j s1 po, of wid cfg]
          note l2 = json_timeline_launched[OF g' c' j' s2 p2, of wid cfg]
          show ?thesis
          proof (cases "poll_loop p 0 ?w3")
            case None
            with poll_loop_returncode[of rc p 0 ?w3]
            have "poll_loop (p\<lparr>returncode := rc\<rparr>) 0 ?w3 = None" by simp
            with None show ?thesis unfolding l1 l2 by simp
          next
            case (Some w4)
            with poll_loop_returncode[of rc p 0 ?w3]
            obtain v4 where v4: "poll_loop (p\<lparr>returncode := rc\<rparr>) 0 ?w3 = Some v4"
              and e: "fs v4 = fs w4" by auto
            have rf: "rmtree_fault ?E = rmtree_fault E" by (simp add: with_returncode_fields)
            show ?thesis unfolding l1 l2 Some v4 option.case
              by (rule cleanup_fs_only[OF e rf])
          qed
        qed
      qed
    qed
  qed
qed

theorem result_independent_of_exit_status_witness:
  "\<exists>w' v'. json_timeline env_ex fs_ex None (Some files_ex) (Some ''/out'') (Some ''wf-1'') [] =
            Some (Inr r_ex, w')
     \<and> json_timeline (with_returncode 3 env_ex) fs_ex None (Some files_ex) (Some ''/out'')
            (Some ''wf-1'') [] = Some (Inr r_ex, v')
     \<and> fs v' = fs w'"
proof -
  from run_ex obtain w' where
    r: "json_timeline env_ex fs_ex None (Some files_ex) (Some ''/out'') (Some ''wf-1'') [] =
          Some (Inr r_ex, w')" by blast
  from result_independent_of_exit_status[of 3 env_ex fs_ex None "Some files_ex" "Some ''/out''"
      "Some ''wf-1''" "[]"] r
  obtain v' where "json_timeline (with_returncode 3 env_ex) fs_ex None (Some files_ex) (Some ''/out'')
            (Some ''wf-1'') [] = Some (Inr r_ex, v')" "fs v' = fs w'"
    by auto
  with r show ?thesis by blast
qed

text \<open>
  C7. As long as \<open>poll()\<close> finds the process running, each round of the loop is one poll,
  one event \<open>task-progress\<close> without data and one sleep of two seconds: after \<open>m\<close> such polls
  the loop stands at its \<open>m\<close>-th iteration with exactly \<open>m\<close> rounds added to the trace.
  In a run that has ended, the polls,
  events and sleeps of the trace are \<open>n\<close> such rounds, \<open>n\<close> the number of polls that found
  the process running, followed by the one poll that returned the exit status and by
  nothing else: no event follows the exit. Time is the argument of \<open>time.sleep\<close>; whether
  the process is running is what \<open>poll()\<close> reports.
\<close>

theorem progress_events:
  "((\<forall>i<m. alive_at p i) \<longrightarrow>
      poll_loop p 0 w = poll_loop p m (w\<lparr>trace := trace w @ progress_rounds m\<rparr>))
   \<and> (json_timeline E fs0 pr inp outp wid cfg = Some (res, w') \<longrightarrow>
        (filter is_loop_effect (trace w') = [] \<and> (\<exists>e. res = Inl e))
      \<or> (\<exists>ofile t q n.
            create_output_file E outp ''Hayabusa_JSONL_timeline'' ''jsonl''
              ''openrelik:worker:hayabusa:file:jsonl'' = Inr ofile
          \<and> os_path_join outp (uuid4_hex E) = Inr t
          \<and> popen E (hayabusa_command (path ofile) t) = Inr q
          \<and> (\<forall>i<n. alive_at q i) \<and> \<not> alive_at q n
          \<and> filter is_loop_effect (trace w') =
              concat (replicate n [EPoll None, ESendEvent ''task-progress'' None, ESleep 2])
                @ [EPoll (Some (returncode q))]))"
proof (intro conjI impI)
  assume "\<forall>i<m. alive_at p i"
  then show "poll_loop p 0 w = poll_loop p m (w\<lparr>trace := trace w @ progress_rounds m\<rparr>)"
    using poll_loop_steps[of m p 0 w] by simp
next
  assume "json_timeline E fs0 pr inp outp wid cfg = Some (res, w')"
  from json_timeline_loop_effects[OF this]
  show "(filter is_loop_effect (trace w') = [] \<and> (\<exists>e. res = Inl e))
      \<or> (\<exists>ofile t q n.
            create_output_file E outp ''Hayabusa_JSONL_timeline'' ''jsonl''
              ''openrelik:worker:hayabusa:file:jsonl'' = Inr ofile
          \<and> os_path_join outp (uuid4_hex E) = Inr t
          \<and> popen E (hayabusa_command (path ofile) t) = Inr q
          \<and> (\<forall>i<n. alive_at q i) \<and> \<not> alive_at q n
          \<and> filter is_loop_effect (trace w') =
              concat (replicate n [EPoll None, ESendEvent ''task-progress'' None, ESleep 2])
                @ [EPoll (Some (returncode q))])"
    unfolding progress_rounds_def .
qed

theorem progress_events_witness:
  "alive_at proc_ex 0 \<and> alive_at proc_ex 1
   \<and> poll_loop proc_ex 0 \<lparr>fs = fs_ex, trace = []\<rparr> =
       poll_loop proc_ex 2 \<lparr>fs = fs_ex,
         trace = [EPoll None, ESendEvent ''task-progress'' None, ESleep 2,
                  EPoll None, ESendEvent ''task-progress'' None, ESleep 2]\<rparr>
   \<and> (\<exists>w'. json_timeline env_ex fs_ex None (Some files_ex) (Some ''/out'') (Some ''wf-1'') [] =
          Some (Inr r_ex, w')
        \<and> filter is_loop_effect (trace w') =
            [EPoll None, ESendEvent ''task-progress'' None, ESleep 2,
             EPoll None, ESendEvent ''task-progress'' None, ESleep 2, EPoll (Some 0)])"
proof -
  have al: "\<forall>i<2. alive_at proc_ex i" by (simp add: proc_ex_def)
  from run_ex obtain w' where
    r: "json_timeline env_ex fs_ex None (Some files_ex) (Some ''/out'') (Some ''wf-1'') [] =
          Some (Inr r_ex, w')" by blast
  note th = progress_events[of 2 proc_ex "\<lparr>fs = fs_ex, trace = []\<rparr>" env_ex fs_ex None
      "Some files_ex" "Some ''/out''" "Some ''wf-1''" "[]" "Inr r_ex" w']
  from th al have a: "poll_loop proc_ex 0 \<lparr>fs = fs_ex, trace = []\<rparr> =
       poll_loop proc_ex 2 \<lparr>fs = fs_ex,
         trace = [EPoll None, ESendEvent ''task-progress'' None, ESleep 2,
                  EPoll None, ESendEvent ''task-progress'' None, ESleep 2]\<rparr>"
    by (simp add: progress_rounds_def numeral_2_eq_2)
  from th r obtain q n where q: "popen env_ex (hayabusa_command (path out_ex) ''/out/0123abcd'') = Inr q"
    "\<forall>i<n. alive_at q i" "\<not> alive_at q n"
    "filter is_loop_effect (trace w') =
        concat (replicate n [EPoll None, ESendEvent ''task-progress'' None, ESleep 2])
                @ [EPoll (Some (returncode q))]"
    by (auto simp: env_ex_def join_ex)
  from q(1) have qe: "q = proc_ex" by (simp add: env_ex_def)
  from q(2,3) have "n = 2" unfolding qe by (auto simp: proc_ex_def not_less dest: spec[of _ 2])
  with q(4) qe have "filter is_loop_effect (trace w') =
            [EPoll None, ESendEvent ''task-progress'' None, ESleep 2,
             EPoll None, ESendEvent ''task-progress'' None, ESleep 2, EPoll (Some 0)]"
    by (simp add: numeral_2_eq_2 proc_ex_def)
  with a r show ?thesis by (auto simp: proc_ex_def)
qed

text \<open>
  C8. Suppose the run reaches the staging step. (1) If \<open>os.mkdir\<close> fails, \<open>json_timeline\<close>
  ends with the very error that call raised, and \<open>mkdir\<close> is the only call it has made.
  (2) If \<open>os.mkdir\<close> succeeds, the links of the first \<open>k\<close> input files succeed one after
  the other, and the link of the next input file fails, \<open>json_timeline\<close> ends with the very
  error that link raised, having made the one \<open>mkdir\<close> and these \<open>k + 1\<close> links, each
  once. (3) If two of the input files, among an initial segment of files that all carry a
  path, share a base name, \<open>json_timeline\<close> ends with an error that \<open>os.mkdir\<close> or an
  \<open>os.link\<close> raised, having made the one \<open>mkdir\<close> and the links of some of these files,
  each once. In all three cases the error is an \<open>OSError\<close> of \<open>mkdir\<close> or \<open>link\<close> (what the
  specification calls a staging error, propagated as raised), the trace holds no \<open>Popen\<close>,
  so the tool was never launched, and no call is repeated.
\<close>

theorem staging_failure_propagates:
  assumes g: "get_input_files E pr (or_empty inp) = Inr files"
    and c: "create_output_file E outp ''Hayabusa_JSONL_timeline'' ''jsonl''
           ''openrelik:worker:hayabusa:file:jsonl'' = Inr ofile"
    and j: "os_path_join outp (uuid4_hex E) = Inr t"
  shows "(os_mkdir E t \<lparr>fs = fs0, trace = []\<rparr> = (Inl e, w) \<longrightarrow>
            json_timeline E fs0 pr inp outp wid cfg = Some (Inl e, w)
          \<and> trace w = [EMkdir t]
          \<and> filter is_popen (trace w) = []
          \<and> is_staging_error e)
     \<and> (os_mkdir E t \<lparr>fs = fs0, trace = []\<rparr> = (Inr (), ws 0)
          \<and> k < length files
          \<and> (\<forall>i\<le>k. dict_get (files ! i) ''path'' = Some (src i))
          \<and> (\<forall>i<k. os_link E (src i) (t @ ''/'' @ basename (src i)) (ws i) = (Inr (), ws (Suc i)))
          \<and> os_link E (src k) (t @ ''/'' @ basename (src k)) (ws k) = (Inl e', we) \<longrightarrow>
            json_timeline E fs0 pr inp outp wid cfg = Some (Inl e', we)
          \<and> trace we = EMkdir t # link_effects t (map src [0..<Suc k])
          \<and> filter is_popen (trace we) = []
          \<and> is_staging_error e')
     \<and> (n \<le> length files
          \<and> map (\<lambda>f. dict_get f ''path'') (take n files) = map Some srcs
          \<and> \<not> distinct (map basename srcs) \<longrightarrow>
            (\<exists>e2 w2 m. json_timeline E fs0 pr inp outp wid cfg = Some (Inl e2, w2)
               \<and> ((\<exists>v. os_mkdir E t \<lparr>fs = fs0, trace = []\<rparr> = (Inl e2, v))
                    \<or> (\<exists>s d v. os_link E s d v = (Inl e2, w2)))
               \<and> m \<le> length srcs
               \<and> trace w2 = EMkdir t # link_effects t (take m srcs)
               \<and> filter is_popen (trace w2) = []
               \<and> is_staging_error e2))"
proof -
  have A: "os_mkdir E t \<lparr>fs = fs0, trace = []\<rparr> = (Inl e, w) \<longrightarrow>
            json_timeline E fs0 pr inp outp wid cfg = Some (Inl e, w)
          \<and> trace w = [EMkdir t]
          \<and> filter is_popen (trace w) = []
          \<and> is_staging_error e"
  proof
  assume mk: "os_mkdir E t \<lparr>fs = fs0, trace = []\<rparr> = (Inl e, w)"
  then have st: "stage_inputs E t files \<lparr>fs = fs0, trace = []\<rparr> = (Inl e, w)"
    by (simp add: stage_inputs_def)
  from os_mkdir_Inl[OF mk] have "trace w = [EMkdir t]" "is_staging_error e" by auto
  with json_timeline_stage_fail[OF g c j st, of wid cfg]
  show "json_timeline E fs0 pr inp outp wid cfg = Some (Inl e, w)
          \<and> trace w = [EMkdir t]
          \<and> filter is_popen (trace w) = []
          \<and> is_staging_error e" by simp
  qed
  have B: "os_mkdir E t \<lparr>fs = fs0, trace = []\<rparr> = (Inr (), ws 0)
          \<and> k < length files
          \<and> (\<forall>i\<le>k. dict_get (files ! i) ''path'' = Some (src i))
          \<and> (\<forall>i<k. os_link E (src i) (t @ ''/'' @ basename (src i)) (ws i) = (Inr (), ws (Suc i)))
          \<and> os_link E (src k) (t @ ''/'' @ basename (src k)) (ws k) = (Inl e', we) \<longrightarrow>
            json_timeline E fs0 pr inp outp wid cfg = Some (Inl e', we)
          \<and> trace we = EMkdir t # link_effects t (map src [0..<Suc k])
          \<and> filter is_popen (trace we) = []
          \<and> is_staging_error e'"
  proof
  assume h: "os_mkdir E t \<lparr>fs = fs0, trace = []\<rparr> = (Inr (), ws 0)
          \<and> k < length files
          \<and> (\<forall>i\<le>k. dict_get (files ! i) ''path'' = Some (src i))
          \<and> (\<forall>i<k. os_link E (src i) (t @ ''/'' @ basename (src i)) (ws i) = (Inr (), ws (Suc i)))
          \<and> os_link E (src k) (t @ ''/'' @ basename (src k)) (ws k) = (Inl e', we)"
  then have mk: "os_mkdir E t \<lparr>fs = fs0, trace = []\<rparr> = (Inr (), ws 0)"
    and k: "k < length files"
    and p: "\<forall>i\<le>k. dict_get (files ! i) ''path'' = Some (src i)"
    and ok: "\<forall>i<k. os_link E (src i) (t @ ''/'' @ basename (src i)) (ws i) = (Inr (), ws (Suc i))"
    and bad: "os_link E (src k) (t @ ''/'' @ basename (src k)) (ws k) = (Inl e', we)"
    by blast+
  from link_files_chain[OF k p ok bad] have
    lf: "link_files E t files (ws 0) = (Inl e', we)"
    and tr: "trace we = trace (ws 0) @ link_effects t (map src [0..<Suc k])" by blast+
  from mk lf have st: "stage_inputs E t files \<lparr>fs = fs0, trace = []\<rparr> = (Inl e', we)"
    by (simp add: stage_inputs_def)
  from os_mkdir_Inr[OF mk] have t0: "trace (ws 0) = [EMkdir t]" by simp
  from os_link_Inl[OF bad] have se: "is_staging_error e'" by auto
  have tw: "trace we = EMkdir t # link_effects t (map src [0..<Suc k])"
    using tr t0 by simp
  have "filter is_popen (trace we) = []"
    unfolding tw by (simp add: filter_popen_link_effects)
  with json_timeline_stage_fail[OF g c j st, of wid cfg] tw se
  show "json_timeline E fs0 pr inp outp wid cfg = Some (Inl e', we)
          \<and> trace we = EMkdir t # link_effects t (map src [0..<Suc k])
          \<and> filter is_popen (trace we) = []
          \<and> is_staging_error e'" by simp
  qed
  have C: "n \<le> length files
          \<and> map (\<lambda>f. dict_get f ''path'') (take n files) = map Some srcs
          \<and> \<not> distinct (map basename srcs) \<longrightarrow>
            (\<exists>e2 w2 m. json_timeline E fs0 pr inp outp wid cfg = Some (Inl e2, w2)
               \<and> ((\<exists>v. os_mkdir E t \<lparr>fs = fs0, trace = []\<rparr> = (Inl e2, v))
                    \<or> (\<exists>s d v. os_link E s d v = (Inl e2, w2)))
               \<and> m \<le> length srcs
               \<and> trace w2 = EMkdir t # link_effects t (take m srcs)
               \<and> filter is_popen (trace w2) = []
               \<and> is_staging_error e2)"
  proof
  assume h: "n \<le> length files
          \<and> map (\<lambda>f. dict_get f ''path'') (take n files) = map Some srcs
          \<and> \<not> distinct (map basename srcs)"
  then have paths: "map (\<lambda>f. dict_get f ''path'') (take n files) = map Some srcs"
    and dup: "\<not> distinct (map basename srcs)" by blast+
  let ?w0 = "\<lparr>fs = fs0, trace = []\<rparr>"
  obtain r1 w1 where mk: "os_mkdir E t ?w0 = (r1, w1)" by (cases "os_mkdir E t ?w0") auto
  show "\<exists>e2 w2 m. json_timeline E fs0 pr inp outp wid cfg = Some (Inl e2, w2)
               \<and> ((\<exists>v. os_mkdir E t \<lparr>fs = fs0, trace = []\<rparr> = (Inl e2, v))
                    \<or> (\<exists>s d v. os_link E s d v = (Inl e2, w2)))
               \<and> m \<le> length srcs
               \<and> trace w2 = EMkdir t # link_effects t (take m srcs)
               \<and> filter is_popen (trace w2) = []
               \<and> is_staging_error e2"
  proof (cases r1)
    case (Inl e1)
    with mk have mk': "os_mkdir E t ?w0 = (Inl e1, w1)" by simp
    then have st: "stage_inputs E t files ?w0 = (Inl e1, w1)" by (simp add: stage_inputs_def)
    from os_mkdir_Inl[OF mk'] have "trace w1 = EMkdir t # link_effects t (take 0 srcs)"
      "is_staging_error e1" "filter is_popen (trace w1) = []"
      by (auto simp: link_effects_def)
    with json_timeline_stage_fail[OF g c j st, of wid cfg] mk' show ?thesis by blast
  next
    case (Inr u)
    with mk have mk': "os_mkdir E t ?w0 = (Inr u, w1)" by simp
    from os_mkdir_Inr[OF mk'] have t1: "trace w1 = [EMkdir t]" by simp
    obtain r2 w2 where lp: "link_files E t (take n files) w1 = (r2, w2)"
      by (cases "link_files E t (take n files) w1") auto
    have "\<exists>e2. r2 = Inl e2"
    proof (cases r2)
      case (Inl e2)
      then show ?thesis by blast
    next
      case (Inr u2)
      with lp mk' have "stage_inputs E t (take n files) ?w0 = (Inr u2, w2)"
        by (simp add: stage_inputs_def)
      from stage_inputs_links[OF this] obtain srcs' where
        p': "map (\<lambda>f. dict_get f ''path'') (take n files) = map Some srcs'"
        and d': "distinct (map basename srcs')" by blast
      from p' paths have "map Some srcs' = map Some srcs" by simp
      then have "srcs' = srcs" by (rule map_injective) simp
      with d' dup show ?thesis by simp
    qed
    then obtain e2 where r2: "r2 = Inl e2" by blast
    from link_files_calls[OF lp[unfolded r2] paths] t1 obtain m where
      m: "m \<le> length srcs" "trace w2 = EMkdir t # link_effects t (take m srcs)"
      and se: "is_staging_error e2" by auto
    from link_files_origin[OF lp[unfolded r2]] se
    have org: "\<exists>s d v. os_link E s d v = (Inl e2, w2)" by auto
    have "link_files E t (take n files @ drop n files) w1 = (Inl e2, w2)"
      unfolding link_files_append lp r2 by simp
    then have "link_files E t files w1 = (Inl e2, w2)" by simp
    with mk' have st: "stage_inputs E t files ?w0 = (Inl e2, w2)"
      by (simp add: stage_inputs_def)
    have "filter is_popen (trace w2) = []"
      unfolding m(2) by (simp add: filter_popen_link_effects)
    with json_timeline_stage_fail[OF g c j st, of wid cfg] org m se show ?thesis by blast
  qed
  qed
  show ?thesis by (rule conjI[OF A conjI[OF B C]])
qed

theorem staging_failure_propagates_witness:
  "(\<exists>w. os_mkdir env_ex ''/nowhere/0123abcd'' \<lparr>fs = fs_ex, trace = []\<rparr> =
          (Inl (OSError ''mkdir'' ENOENT), w)
      \<and> json_timeline env_ex fs_ex None (Some files_ex) (Some ''/nowhere'') (Some ''wf-1'') [] =
          Some (Inl (OSError ''mkdir'' ENOENT), w)
      \<and> trace w = [EMkdir ''/nowhere/0123abcd''])
   \<and> (\<exists>w1 w1' we.
        os_mkdir env_xdev ''/out/0123abcd'' \<lparr>fs = fs_ex, trace = []\<rparr> = (Inr (), w1)
      \<and> os_link env_xdev ''/in/a.evtx'' ''/out/0123abcd/a.evtx'' w1 = (Inr (), w1')
      \<and> os_link env_xdev ''/in/b.evtx'' ''/out/0123abcd/b.evtx'' w1' =
          (Inl (OSError ''link'' EXDEV), we)
      \<and> json_timeline env_xdev fs_ex None (Some files_ex) (Some ''/out'') (Some ''wf-1'') [] =
          Some (Inl (OSError ''link'' EXDEV), we)
      \<and> trace we = [EMkdir ''/out/0123abcd'', ELink ''/in/a.evtx'' ''/out/0123abcd/a.evtx'',
                      ELink ''/in/b.evtx'' ''/out/0123abcd/b.evtx''])
   \<and> map (\<lambda>f. dict_get f ''path'') (take 2 files_dup) = map Some [''/in/a.evtx'', ''/in2/a.evtx'']
   \<and> \<not> distinct (map basename [''/in/a.evtx'', ''/in2/a.evtx''])
   \<and> (\<exists>w2. json_timeline env_ex fs_ex None (Some files_dup) (Some ''/out'') (Some ''wf-1'') [] =
             Some (Inl (OSError ''link'' EEXIST), w2)
         \<and> (\<exists>s d v. os_link env_ex s d v = (Inl (OSError ''link'' EEXIST), w2))
         \<and> filter is_popen (trace w2) = [])"
proof -
  have c: "create_output_file env_ex outp ''Hayabusa_JSONL_timeline'' ''jsonl''
           ''openrelik:worker:hayabusa:file:jsonl'' = Inr out_ex" for outp
    by (simp add: env_ex_def)
  have cx: "create_output_file env_xdev (Some ''/out'') ''Hayabusa_JSONL_timeline'' ''jsonl''
           ''openrelik:worker:hayabusa:file:jsonl'' = Inr out_ex"
    by (simp add: env_xdev_def env_ex_def)
  have g: "get_input_files env_ex None (or_empty (Some fl)) = Inr fl" for fl
    by (simp add: env_ex_def or_empty_def)
  have gx: "get_input_files env_xdev None (or_empty (Some files_ex)) = Inr files_ex"
    by (simp add: env_xdev_def env_ex_def or_empty_def)
  have j: "os_path_join (Some ''/out'') (uuid4_hex env_ex) = Inr ''/out/0123abcd''"
    by (simp add: env_ex_def join_ex)
  have jx: "os_path_join (Some ''/out'') (uuid4_hex env_xdev) = Inr ''/out/0123abcd''"
    by (simp add: env_xdev_def env_ex_def join_ex)
  have jn: "os_path_join (Some ''/nowhere'') (uuid4_hex env_ex) = Inr ''/nowhere/0123abcd''"
    by (simp add: env_ex_def os_path_join_def)

  from mkdir_nowhere obtain w where
    mk: "os_mkdir env_ex ''/nowhere/0123abcd'' \<lparr>fs = fs_ex, trace = []\<rparr> =
          (Inl (OSError ''mkdir'' ENOENT), w)" by blast
  from staging_failure_propagates[OF g c jn, THEN conjunct1, THEN mp, OF mk,
      of files_ex "Some ''wf-1''" "[]"] mk
  have A: "\<exists>w. os_mkdir env_ex ''/nowhere/0123abcd'' \<lparr>fs = fs_ex, trace = []\<rparr> =
          (Inl (OSError ''mkdir'' ENOENT), w)
      \<and> json_timeline env_ex fs_ex None (Some files_ex) (Some ''/nowhere'') (Some ''wf-1'') [] =
          Some (Inl (OSError ''mkdir'' ENOENT), w)
      \<and> trace w = [EMkdir ''/nowhere/0123abcd'']"
    by blast

  from links_xdev obtain w1 w1' we where
    m1: "os_mkdir env_xdev ''/out/0123abcd'' \<lparr>fs = fs_ex, trace = []\<rparr> = (Inr (), w1)"
    and l1: "os_link env_xdev ''/in/a.evtx'' ''/out/0123abcd/a.evtx'' w1 = (Inr (), w1')"
    and l2: "os_link env_xdev ''/in/b.evtx'' ''/out/0123abcd/b.evtx'' w1' =
          (Inl (OSError ''link'' EXDEV), we)" by blast
  define ws where "ws = (\<lambda>i::nat. if i = 0 then w1 else w1')"
  define src where "src = (\<lambda>i::nat. if i = 0 then ''/in/a.evtx'' else ''/in/b.evtx'')"
  have h: "os_mkdir env_xdev ''/out/0123abcd'' \<lparr>fs = fs_ex, trace = []\<rparr> = (Inr (), ws 0)
          \<and> 1 < length files_ex
          \<and> (\<forall>i\<le>1. dict_get (files_ex ! i) ''path'' = Some (src i))
          \<and> (\<forall>i<1. os_link env_xdev (src i) (''/out/0123abcd'' @ ''/'' @ basename (src i)) (ws i)
                  = (Inr (), ws (Suc i)))
          \<and> os_link env_xdev (src 1) (''/out/0123abcd'' @ ''/'' @ basename (src 1)) (ws 1)
                  = (Inl (OSError ''link'' EXDEV), we)"
    using m1 l1 l2
    by (auto simp: ws_def src_def files_ex_def dict_get_def basename_ex le_Suc_eq)
  from staging_failure_propagates[OF gx cx jx, THEN conjunct2, THEN conjunct1, THEN mp, OF h,
      of "Some ''wf-1''" "[]"]
  have "json_timeline env_xdev fs_ex None (Some files_ex) (Some ''/out'') (Some ''wf-1'') [] =
          Some (Inl (OSError ''link'' EXDEV), we)
      \<and> trace we = [EMkdir ''/out/0123abcd'', ELink ''/in/a.evtx'' ''/out/0123abcd/a.evtx'',
                      ELink ''/in/b.evtx'' ''/out/0123abcd/b.evtx'']"
    by (simp add: link_effects_def src_def basename_ex)
  with m1 l1 l2 have B: "\<exists>w1 w1' we.
        os_mkdir env_xdev ''/out/0123abcd'' \<lparr>fs = fs_ex, trace = []\<rparr> = (Inr (), w1)
      \<and> os_link env_xdev ''/in/a.evtx'' ''/out/0123abcd/a.evtx'' w1 = (Inr (), w1')
      \<and> os_link env_xdev ''/in/b.evtx'' ''/out/0123abcd/b.evtx'' w1' =
          (Inl (OSError ''link'' EXDEV), we)
      \<and> json_timeline env_xdev fs_ex None (Some files_ex) (Some ''/out'') (Some ''wf-1'') [] =
          Some (Inl (OSError ''link'' EXDEV), we)
      \<and> trace we = [EMkdir ''/out/0123abcd'', ELink ''/in/a.evtx'' ''/out/0123abcd/a.evtx'',
                      ELink ''/in/b.evtx'' ''/out/0123abcd/b.evtx'']"
    by blast

  have p: "map (\<lambda>f. dict_get f ''path'') (take 2 files_dup) = map Some [''/in/a.evtx'', ''/in2/a.evtx'']"
    by (simp add: files_dup_def dict_get_def)
  have d: "\<not> distinct (map basename [''/in/a.evtx'', ''/in2/a.evtx''])"
    by (simp add: basename_ex)
  have n: "2 \<le> length files_dup" by (simp add: files_dup_def)
  from stage_dup obtain wd where
    sd: "stage_inputs env_ex ''/out/0123abcd'' files_dup \<lparr>fs = fs_ex, trace = []\<rparr> =
           (Inl (OSError ''link'' EEXIST), wd)" by blast
  note rd = json_timeline_stage_fail[OF g c j sd, of "Some ''wf-1''" "[]"]
  have "\<exists>w1. os_mkdir env_ex ''/out/0123abcd'' \<lparr>fs = fs_ex, trace = []\<rparr> = (Inr (), w1)"
    by (simp add: os_mkdir_def log_def Let_def env_ex_def fs_ex_def resolve_ex)
  then obtain wm where
    md: "os_mkdir env_ex ''/out/0123abcd'' \<lparr>fs = fs_ex, trace = []\<rparr> = (Inr (), wm)" by blast
  from staging_failure_propagates[OF g c j, THEN conjunct2, THEN conjunct2, THEN mp,
      OF conjI[OF n conjI[OF p d]], of fs_ex "Some ''wf-1''" "[]"] rd md
  have C: "\<exists>w2. json_timeline env_ex fs_ex None (Some files_dup) (Some ''/out'') (Some ''wf-1'') [] =
             Some (Inl (OSError ''link'' EEXIST), w2)
         \<and> (\<exists>s d v. os_link env_ex s d v = (Inl (OSError ''link'' EEXIST), w2))
         \<and> filter is_popen (trace w2) = []"
    by auto
  from A B p d C show ?thesis by blast
qed

text \<open>
  C9. An empty list of input files is not looked at: the staging step then is the
  \<open>os.mkdir\<close> alone, and whenever that succeeds staging succeeds, the staging directory
  exists and is empty, and the tool is launched over it. A run that ends has the
  \<open>mkdir\<close> and the \<open>Popen\<close> of the command as its first two calls, and the only errors
  it can end in are those of the launch and of the removal; a run that never ends has
  launched a process that never exits.
\<close>

theorem empty_input_accepted:
  assumes g: "get_input_files E pr (or_empty inp) = Inr []"
    and c: "create_output_file E outp ''Hayabusa_JSONL_timeline'' ''jsonl''
           ''openrelik:worker:hayabusa:file:jsonl'' = Inr ofile"
    and j: "os_path_join outp (uuid4_hex E) = Inr t"
    and wf: "wf_fs fs0"
    and mk: "os_mkdir E t \<lparr>fs = fs0, trace = []\<rparr> = (Inr (), w1)"
  shows "stage_inputs E t [] \<lparr>fs = fs0, trace = []\<rparr> = (Inr (), w1)
     \<and> nodes (fs w1) (resolve t) = Some Dir
     \<and> entries (fs w1) (resolve t) = {}
     \<and> (case json_timeline E fs0 pr inp outp wid cfg of
          None \<Rightarrow> (\<exists>p. popen E (hayabusa_command (path ofile) t) = Inr p \<and> (\<forall>k. alive_at p k))
        | Some (res, w') \<Rightarrow>
            take 2 (trace w') = [EMkdir t, EPopen (hayabusa_command (path ofile) t)]
          \<and> (\<forall>e. res = Inl e \<longrightarrow> (\<exists>n. e = OSError ''Popen'' n \<or> e = OSError ''rmtree'' n)))"
proof -
  have st: "stage_inputs E t [] \<lparr>fs = fs0, trace = []\<rparr> = (Inr (), w1)"
    using mk by (simp add: stage_inputs_def)
  from os_mkdir_Inr[OF mk] have
    free: "nodes fs0 (resolve t) = None"
    and f1: "fs w1 = fs0\<lparr>nodes := (nodes fs0)(resolve t \<mapsto> Dir)\<rparr>"
    and t1: "trace w1 = [EMkdir t]" by simp_all
  have dir: "nodes (fs w1) (resolve t) = Some Dir" using f1 by simp
  have "nodes (fs w1) (resolve t @ [n]) = None" for n
    using f1 fresh_dir_empty[OF wf free, of n] by simp
  then have emp: "entries (fs w1) (resolve t) = {}" by (simp add: entries_def)
  let ?cmd = "hayabusa_command (path ofile) t"
  have run: "case json_timeline E fs0 pr inp outp wid cfg of
          None \<Rightarrow> (\<exists>p. popen E ?cmd = Inr p \<and> (\<forall>k. alive_at p k))
        | Some (res, w') \<Rightarrow>
            take 2 (trace w') = [EMkdir t, EPopen ?cmd]
          \<and> (\<forall>e. res = Inl e \<longrightarrow> (\<exists>n. e = OSError ''Popen'' n \<or> e = OSError ''rmtree'' n))"
  proof (cases "json_timeline E fs0 pr inp outp wid cfg")
    case None
    from json_timeline_None[OF None] c j show ?thesis unfolding None by auto
  next
    case (Some a)
    obtain res w' where a: "a = (res, w')" by (cases a)
    from Some[unfolded a] have "take 2 (trace w') = [EMkdir t, EPopen ?cmd]
          \<and> (\<forall>e. res = Inl e \<longrightarrow> (\<exists>n. e = OSError ''Popen'' n \<or> e = OSError ''rmtree'' n))"
    proof (cases rule: json_timeline_cases)
      case (helper m)
      with g c show ?thesis by simp
    next
      case join
      with j show ?thesis by simp
    next
      case (stage files ofile' t' e)
      with g j st show ?thesis by simp
    next
      case (launch files ofile' t' w2 n)
      with g c j st t1 show ?thesis by (simp add: log_def)
    next
      case (exited files ofile' t' w2 p n ex)
      from exited(1-4) g c j st have eq: "ofile' = ofile" "t' = t" "w2 = w1" by simp_all
      from exited(8) t1 have "take 2 (trace w') = [EMkdir t, EPopen ?cmd]"
        unfolding eq by simp
      moreover from exited(9) have "\<forall>e. res = Inl e \<longrightarrow> (\<exists>n. e = OSError ''Popen'' n \<or> e = OSError ''rmtree'' n)"
        by (auto simp: collect_output_eq)
      ultimately show ?thesis by blast
    qed
    then show ?thesis unfolding Some a by simp
  qed
  from st dir emp run show ?thesis by blast
qed

theorem empty_input_accepted_witness:
  "get_input_files env_ex None (or_empty (Some [])) = Inr []
   \<and> create_output_file env_ex (Some ''/out'') ''Hayabusa_JSONL_timeline'' ''jsonl''
           ''openrelik:worker:hayabusa:file:jsonl'' = Inr out_ex
   \<and> os_path_join (Some ''/out'') (uuid4_hex env_ex) = Inr ''/out/0123abcd''
   \<and> wf_fs fs_ex
   \<and> (\<exists>w1. os_mkdir env_ex ''/out/0123abcd'' \<lparr>fs = fs_ex, trace = []\<rparr> = (Inr (), w1)
         \<and> stage_inputs env_ex ''/out/0123abcd'' [] \<lparr>fs = fs_ex, trace = []\<rparr> = (Inr (), w1)
         \<and> nodes (fs w1) (resolve ''/out/0123abcd'') = Some Dir
         \<and> entries (fs w1) (resolve ''/out/0123abcd'') = {})
   \<and> (\<exists>r w'. json_timeline env_ex fs_ex None (Some []) (Some ''/out'') (Some ''wf-1'') [] =
           Some (Inr r, w')
         \<and> take 2 (trace w') =
             [EMkdir ''/out/0123abcd'', EPopen (hayabusa_command (path out_ex) ''/out/0123abcd'')])"
proof -
  have g: "get_input_files env_ex None (or_empty (Some [])) = Inr []"
    by (simp add: env_ex_def or_empty_def)
  have c: "create_output_file env_ex (Some ''/out'') ''Hayabusa_JSONL_timeline'' ''jsonl''
           ''openrelik:worker:hayabusa:file:jsonl'' = Inr out_ex"
    by (simp add: env_ex_def)
  have j: "os_path_join (Some ''/out'') (uuid4_hex env_ex) = Inr ''/out/0123abcd''"
    by (simp add: env_ex_def join_ex)
  have "\<exists>w1. os_mkdir env_ex ''/out/0123abcd'' \<lparr>fs = fs_ex, trace = []\<rparr> = (Inr (), w1)"
    by (simp add: os_mkdir_def log_def Let_def env_ex_def fs_ex_def resolve_ex)
  then obtain w1 where
    mk: "os_mkdir env_ex ''/out/0123abcd'' \<lparr>fs = fs_ex, trace = []\<rparr> = (Inr (), w1)" by blast
  note th = empty_input_accepted[OF g c j wf_fs_ex mk, of "Some ''wf-1''" "[]"]
  then have st: "stage_inputs env_ex ''/out/0123abcd'' [] \<lparr>fs = fs_ex, trace = []\<rparr> = (Inr (), w1)"
    and d: "nodes (fs w1) (resolve ''/out/0123abcd'') = Some Dir"
    and e: "entries (fs w1) (resolve ''/out/0123abcd'') = {}" by simp_all
  have po: "popen env_ex (hayabusa_command (path out_ex) ''/out/0123abcd'') = Inr proc_ex"
    by (simp add: env_ex_def)
  have al: "\<forall>i<2. alive_at proc_ex i" and ex: "\<not> alive_at proc_ex 2"
    by (simp_all add: proc_ex_def)
  have nf: "rmtree_fault env_ex ''/out/0123abcd'' = None" by (simp add: env_ex_def)
  have nd: "nodes (writes proc_ex (fs w1)) (resolve ''/out/0123abcd'') = None
      \<or> nodes (writes proc_ex (fs w1)) (resolve ''/out/0123abcd'') = Some Dir"
    using d by (simp add: proc_ex_def resolve_ex)
  from json_timeline_returns[OF g c j st po al ex nf nd, of "Some ''wf-1''" "[]"]
  obtain r w' where
    r: "json_timeline env_ex fs_ex None (Some []) (Some ''/out'') (Some ''wf-1'') [] = Some (Inr r, w')"
    by (auto simp: collect_output_eq)
  with th have "take 2 (trace w') =
             [EMkdir ''/out/0123abcd'', EPopen (hayabusa_command (path out_ex) ''/out/0123abcd'')]"
    by simp
  with g c j wf_fs_ex mk st d e r show ?thesis by blast
qed

text \<open>
  C10. In every run that reaches the test of line 99 the list \<open>output_files\<close> holds exactly
  one element, the descriptor of the output file allocated at the start, because line 96
  appends it without looking at the filesystem. So no run of \<open>json_timeline\<close> ends in a
  \<open>RuntimeError\<close>, every returned result carries exactly one descriptor, and
  \<open>collect_output\<close> raises for no list it is started with.
\<close>

theorem runtime_error_unreachable:
  assumes "json_timeline E fs0 pr inp outp wid cfg = Some (res, w')"
  shows "res \<noteq> Inl (RuntimeError m)
     \<and> (\<forall>r. res = Inr r \<longrightarrow> length (output_files r) = 1)
     \<and> collect_output ofs ofile wid' cmd \<noteq> Inl e"
proof -
  have a: "collect_output ofs ofile wid' cmd \<noteq> Inl e"
    by (simp add: collect_output_def)
  from assms have "res \<noteq> Inl (RuntimeError m) \<and> (\<forall>r. res = Inr r \<longrightarrow> length (output_files r) = 1)"
  proof (cases rule: json_timeline_cases)
    case (helper m)
    then show ?thesis by simp
  next
    case join
    then show ?thesis by simp
  next
    case (stage files ofile t e)
    from stage_inputs_error[OF stage(4)] stage(5) show ?thesis by auto
  next
    case (launch files ofile t w2 n)
    then show ?thesis by simp
  next
    case (exited files ofile t w2 p n ex)
    from exited(9) show ?thesis by (auto simp: collect_output_eq)
  qed
  with a show ?thesis by blast
qed

theorem runtime_error_unreachable_witness:
  "\<exists>w'. json_timeline env_ex fs_ex None (Some files_ex) (Some ''/out'') (Some ''wf-1'') [] =
          Some (Inr r_ex, w')
     \<and> Inr r_ex \<noteq> (Inl (RuntimeError ''Hayabusa didn't create any output files'') :: error + task_result)
     \<and> length (output_files r_ex) = 1"
proof -
  from run_ex obtain w' where
    r: "json_timeline env_ex fs_ex None (Some files_ex) (Some ''/out'') (Some ''wf-1'') [] =
          Some (Inr r_ex, w')" by blast
  from runtime_error_unreachable[OF r] r show ?thesis by blast
qed

end
